theory Spec2Isabelle
  imports Complex_Main "HOL-Library.Monad_Syntax"
begin

section \<open>Time values and Date objects\<close>

text \<open>
  A JavaScript \<^verbatim>\<open>Date\<close> holds a time value: a whole number of milliseconds since the epoch,
  or NaN (an invalid date). A number read from a Date is an \<open>int option\<close>, \<open>None\<close> for NaN.
\<close>

datatype js_date = Date int | Invalid_Date

fun getTime :: "js_date \<Rightarrow> int option" where
  "getTime (Date t) = Some t"
| "getTime Invalid_Date = None"

text \<open>\<^verbatim>\<open>a < b\<close> and \<^verbatim>\<open>a > b\<close> on numbers: false as soon as one side is NaN.\<close>

fun num_lt :: "int option \<Rightarrow> int option \<Rightarrow> bool" where
  "num_lt (Some a) (Some b) = (a < b)"
| "num_lt _ _ = False"

definition num_gt :: "int option \<Rightarrow> int option \<Rightarrow> bool" where
  "num_gt a b = num_lt b a"

text \<open>\<^verbatim>\<open>a + b\<close> on numbers propagates NaN.\<close>

fun num_add :: "int option \<Rightarrow> int option \<Rightarrow> int option" where
  "num_add (Some a) (Some b) = Some (a + b)"
| "num_add _ _ = None"

text \<open>
  \<^verbatim>\<open>new Date(n)\<close> for a number \<open>n\<close> clips (TimeClip of ECMA-262): NaN, or a time value
  beyond 8.64e15 ms in magnitude, gives an invalid date. Every whole number up to that
  bound is exact in a double, and a sum of two such numbers that leaves the bound is
  clipped whether or not the double rounds it, so whole-number arithmetic on \<open>int\<close>
  followed by the clip is what the engine computes.
\<close>

definition maxTime :: int where
  "maxTime = 8640000000000000"

definition TimeClip :: "int option \<Rightarrow> js_date" where
  "TimeClip n = (case n of None \<Rightarrow> Invalid_Date
                 | Some t \<Rightarrow> if \<bar>t\<bar> \<le> maxTime then Date t else Invalid_Date)"

definition valid_date :: "js_date \<Rightarrow> bool" where
  "valid_date d = (case d of Date t \<Rightarrow> \<bar>t\<bar> \<le> maxTime | Invalid_Date \<Rightarrow> False)"

section \<open>Dates as ISO strings\<close>

text \<open>
  \<^verbatim>\<open>JSON.stringify\<close> writes a Date through \<^verbatim>\<open>Date.prototype.toISOString\<close>, and
  \<^verbatim>\<open>new Date(string)\<close> reads it back. Both follow ECMA-262 (21.4.1): the day number and
  the time within the day, the year of a day, the month and the day of the month.
\<close>

definition msPerDay :: int where "msPerDay = 86400000"

definition Day :: "int \<Rightarrow> int" where "Day t = t div msPerDay"

definition TimeWithinDay :: "int \<Rightarrow> int" where "TimeWithinDay t = t mod msPerDay"

definition DayFromYear :: "int \<Rightarrow> int" where
  "DayFromYear y = 365 * (y - 1970) + (y - 1969) div 4 - (y - 1901) div 100 + (y - 1601) div 400"

definition InLeapYear :: "int \<Rightarrow> bool" where
  "InLeapYear y = ((y mod 4 = 0 \<and> y mod 100 \<noteq> 0) \<or> y mod 400 = 0)"

definition DaysInYear :: "int \<Rightarrow> int" where
  "DaysInYear y = (if InLeapYear y then 366 else 365)"

text \<open>
  The year of a day is the largest \<open>y\<close> with \<open>DayFromYear y \<le> d\<close>. It is computed from
  the mean length of a year (146097 days in 400 years), which is off by at most one
  (lemma \<open>YearFromDay_bracket\<close> below).
\<close>

definition YearFromDay :: "int \<Rightarrow> int" where
  "YearFromDay d =
     (let y = 1970 + (400 * d) div 146097
      in if d < DayFromYear y then y - 1
         else if DayFromYear (y + 1) \<le> d then y + 1
         else y)"

text \<open>The day within the year on which month \<open>m\<close> (0 to 11) starts; 12 is the next year.\<close>

definition MonthStart :: "bool \<Rightarrow> int \<Rightarrow> int" where
  "MonthStart leap m =
     (let L = (if leap then 1 else 0)
      in if m \<le> 0 then 0 else if m = 1 then 31 else if m = 2 then 59 + L
         else if m = 3 then 90 + L else if m = 4 then 120 + L else if m = 5 then 151 + L
         else if m = 6 then 181 + L else if m = 7 then 212 + L else if m = 8 then 243 + L
         else if m = 9 then 273 + L else if m = 10 then 304 + L else if m = 11 then 334 + L
         else 365 + L)"

definition MonthFromDay :: "bool \<Rightarrow> int \<Rightarrow> int" where
  "MonthFromDay leap dwy =
     (if dwy < MonthStart leap 1 then 0 else if dwy < MonthStart leap 2 then 1
      else if dwy < MonthStart leap 3 then 2 else if dwy < MonthStart leap 4 then 3
      else if dwy < MonthStart leap 5 then 4 else if dwy < MonthStart leap 6 then 5
      else if dwy < MonthStart leap 7 then 6 else if dwy < MonthStart leap 8 then 7
      else if dwy < MonthStart leap 9 then 8 else if dwy < MonthStart leap 10 then 9
      else if dwy < MonthStart leap 11 then 10 else 11)"

definition DaysInMonth :: "int \<Rightarrow> int \<Rightarrow> int" where
  "DaysInMonth y m = MonthStart (InLeapYear y) (m + 1) - MonthStart (InLeapYear y) m"

definition MakeDay :: "int \<Rightarrow> int \<Rightarrow> int \<Rightarrow> int" where
  "MakeDay y m dt = DayFromYear y + MonthStart (InLeapYear y) m + dt - 1"

definition MakeTime :: "int \<Rightarrow> int \<Rightarrow> int \<Rightarrow> int \<Rightarrow> int" where
  "MakeTime h mi s ms = h * 3600000 + mi * 60000 + s * 1000 + ms"

definition MakeDate :: "int \<Rightarrow> int \<Rightarrow> int" where
  "MakeDate day time = day * msPerDay + time"

text \<open>Decimal digits, numbers padded to a width, and reading them back.\<close>

definition digit_char :: "int \<Rightarrow> char" where
  "digit_char n = ''0123456789'' ! nat n"

definition digit_value :: "char \<Rightarrow> int option" where
  "digit_value c = (let k = of_char c - 48 in if (0::int) \<le> k \<and> k \<le> 9 then Some k else None)"

fun pad :: "nat \<Rightarrow> int \<Rightarrow> string" where
  "pad 0 n = []"
| "pad (Suc k) n = pad k (n div 10) @ [digit_char (n mod 10)]"

fun read_num :: "int \<Rightarrow> string \<Rightarrow> int option" where
  "read_num acc [] = Some acc"
| "read_num acc (c # cs) =
     (case digit_value c of None \<Rightarrow> None | Some v \<Rightarrow> read_num (10 * acc + v) cs)"

definition take_digits :: "nat \<Rightarrow> string \<Rightarrow> (int \<times> string) option" where
  "take_digits k s =
     (if length s < k then None
      else map_option (\<lambda>v. (v, drop k s)) (read_num 0 (take k s)))"

definition expect :: "char \<Rightarrow> string \<Rightarrow> string option" where
  "expect c s = (case s of [] \<Rightarrow> None | x # r \<Rightarrow> if x = c then Some r else None)"

text \<open>
  The year is written with four digits from 0 to 9999, and with a sign and six digits
  otherwise; \<^verbatim>\<open>-000000\<close> is not a year.
\<close>

definition year_string :: "int \<Rightarrow> string" where
  "year_string y =
     (if 0 \<le> y \<and> y \<le> 9999 then pad 4 y
      else (if y < 0 then ''-'' else ''+'') @ pad 6 \<bar>y\<bar>)"

definition read_year :: "string \<Rightarrow> (int \<times> string) option" where
  "read_year s =
     (case s of [] \<Rightarrow> None
      | c # r \<Rightarrow>
          if c = CHR ''+'' then take_digits 6 r
          else if c = CHR ''-'' then
            (case take_digits 6 r of None \<Rightarrow> None
             | Some (v, r') \<Rightarrow> if v = 0 then None else Some (- v, r'))
          else take_digits 4 s)"

text \<open>\<^verbatim>\<open>toISOString\<close> of a valid time value: \<^verbatim>\<open>YYYY-MM-DDTHH:mm:ss.sssZ\<close>.\<close>

definition toISOString :: "int \<Rightarrow> string" where
  "toISOString t =
     (let d = Day t; tw = TimeWithinDay t;
          y = YearFromDay d; dwy = d - DayFromYear y;
          m = MonthFromDay (InLeapYear y) dwy;
          dt = dwy - MonthStart (InLeapYear y) m + 1
      in year_string y @ ''-'' @ pad 2 (m + 1) @ ''-'' @ pad 2 dt @ ''T''
         @ pad 2 (tw div 3600000) @ '':'' @ pad 2 (tw div 60000 mod 60) @ '':''
         @ pad 2 (tw div 1000 mod 60) @ ''.'' @ pad 3 (tw mod 1000) @ ''Z'')"

text \<open>
  Reading a string of exactly that form, with a date that exists and a time of day below
  24:00. Any other string is outside this function (\<open>None\<close>): what an engine makes of it
  is left to \<open>new_Date\<close> below.
\<close>

definition parse_utc :: "string \<Rightarrow> int option" where
  "parse_utc s = do {
     (y, s) \<leftarrow> read_year s;
     s \<leftarrow> expect CHR ''-'' s;
     (mo, s) \<leftarrow> take_digits 2 s;
     s \<leftarrow> expect CHR ''-'' s;
     (dd, s) \<leftarrow> take_digits 2 s;
     s \<leftarrow> expect CHR ''T'' s;
     (h, s) \<leftarrow> take_digits 2 s;
     s \<leftarrow> expect CHR '':'' s;
     (mi, s) \<leftarrow> take_digits 2 s;
     s \<leftarrow> expect CHR '':'' s;
     (sec, s) \<leftarrow> take_digits 2 s;
     s \<leftarrow> expect CHR ''.'' s;
     (ms, s) \<leftarrow> take_digits 3 s;
     s \<leftarrow> expect CHR ''Z'' s;
     if s = [] \<and> 1 \<le> mo \<and> mo \<le> 12 \<and> 1 \<le> dd \<and> dd \<le> DaysInMonth y (mo - 1)
        \<and> h \<le> 23 \<and> mi \<le> 59 \<and> sec \<le> 59
     then Some (MakeDate (MakeDay y (mo - 1) dd) (MakeTime h mi sec ms))
     else None }"

section \<open>JavaScript values\<close>

text \<open>
  The data of storageService.ts is typed \<^verbatim>\<open>any\<close> where it comes out of \<^verbatim>\<open>JSON.parse\<close>, so
  the store is modelled on run-time values: the JSON values, \<^verbatim>\<open>undefined\<close>, and Date
  objects. An object is the list of its own properties in their order. A JSON number is
  a finite double, here the rational it denotes.
\<close>

datatype jsval =
    JUndefined
  | JNull
  | JBool bool
  | JNumber rat
  | JString string
  | JDate js_date
  | JArray "jsval list"
  | JObject "(string \<times> jsval) list"

datatype js_error = SyntaxError | TypeError

fun truthy :: "jsval \<Rightarrow> bool" where
  "truthy JUndefined = False"
| "truthy JNull = False"
| "truthy (JBool b) = b"
| "truthy (JNumber q) = (q \<noteq> 0)"
| "truthy (JString s) = (s \<noteq> [])"
| "truthy (JDate d) = True"
| "truthy (JArray xs) = True"
| "truthy (JObject ps) = True"

text \<open>
  \<^verbatim>\<open>a === b\<close>. Primitives compare by value. Objects compare by reference: the two sides
  of every \<^verbatim>\<open>===\<close> of this program come from different calls of \<^verbatim>\<open>JSON.parse\<close> or from a
  fresh literal, so two objects are never the same one.
\<close>

fun strict_eq :: "jsval \<Rightarrow> jsval \<Rightarrow> bool" where
  "strict_eq JUndefined JUndefined = True"
| "strict_eq JNull JNull = True"
| "strict_eq (JBool a) (JBool b) = (a = b)"
| "strict_eq (JNumber a) (JNumber b) = (a = b)"
| "strict_eq (JString a) (JString b) = (a = b)"
| "strict_eq _ _ = False"

text \<open>
  \<^verbatim>\<open>v.k\<close> for a value that is neither \<^verbatim>\<open>null\<close> nor \<^verbatim>\<open>undefined\<close>, and for the names this
  program reads (\<^verbatim>\<open>id\<close>, \<^verbatim>\<open>type\<close>, \<^verbatim>\<open>start\<close>, \<^verbatim>\<open>end\<close>), which no prototype defines: the own
  property of an object, \<^verbatim>\<open>undefined\<close> otherwise.
\<close>

fun get_prop :: "jsval \<Rightarrow> string \<Rightarrow> jsval" where
  "get_prop (JObject ps) k = (case map_of ps k of None \<Rightarrow> JUndefined | Some v \<Rightarrow> v)"
| "get_prop _ k = JUndefined"

text \<open>\<^verbatim>\<open>v?.k\<close>: \<^verbatim>\<open>undefined\<close> when \<open>v\<close> is \<^verbatim>\<open>null\<close> or \<^verbatim>\<open>undefined\<close>.\<close>

definition nullish :: "jsval \<Rightarrow> bool" where
  "nullish v = (v = JUndefined \<or> v = JNull)"

definition opt_prop :: "jsval \<Rightarrow> string \<Rightarrow> jsval" where
  "opt_prop v k = (if nullish v then JUndefined else get_prop v k)"

text \<open>\<^verbatim>\<open>{ ...v }\<close> copies the own enumerable properties: of an array and of a string, the indices.\<close>

fun decimal :: "nat \<Rightarrow> string" where
  "decimal n = (if n < 10 then [digit_char (int n)]
                else decimal (n div 10) @ [digit_char (int (n mod 10))])"

fun own_props :: "jsval \<Rightarrow> (string \<times> jsval) list" where
  "own_props (JObject ps) = ps"
| "own_props (JArray xs) = zip (map decimal [0..<length xs]) xs"
| "own_props (JString s) = zip (map decimal [0..<length s]) (map (\<lambda>c. JString [c]) s)"
| "own_props _ = []"

text \<open>\<^verbatim>\<open>{ ..., k: v }\<close>: a property that exists keeps its place, a new one goes last.\<close>

fun set_prop :: "(string \<times> jsval) list \<Rightarrow> string \<Rightarrow> jsval \<Rightarrow> (string \<times> jsval) list" where
  "set_prop [] k v = [(k, v)]"
| "set_prop (p # ps) k v = (if fst p = k then (k, v) # ps else p # set_prop ps k v)"

text \<open>
  \<^verbatim>\<open>new Date(s)\<close> for a string. A string in the form \<^verbatim>\<open>toISOString\<close> writes is read as
  UTC. Which number any other string gives (a local time such as \<^verbatim>\<open>2024-06-04T10:00\<close>
  depends on the time zone, other forms on the engine) is a parameter \<open>other\<close> of the
  model (\<open>None\<close> for NaN): every theorem holds for each choice of it.
\<close>

definition new_Date_string :: "(jsval \<Rightarrow> int option) \<Rightarrow> string \<Rightarrow> js_date" where
  "new_Date_string other s =
     TimeClip (case parse_utc s of Some t \<Rightarrow> Some t | None \<Rightarrow> other (JString s))"

text \<open>
  \<^verbatim>\<open>new Date(v)\<close> turns an array or object into a primitive first (ToPrimitive of
  ECMA-262): \<^verbatim>\<open>valueOf\<close> of a plain object or array gives the object back, so the string
  of \<^verbatim>\<open>toString\<close> is what counts. In a value that came out of \<^verbatim>\<open>JSON.parse\<close> no property
  is a function. An object with an own property \<^verbatim>\<open>toString\<close> therefore has no method
  to call, and the conversion throws a TypeError; an object without one is
  \<^verbatim>\<open>[object Object]\<close>. An array joins the strings of its elements (\<^verbatim>\<open>null\<close> and
  \<^verbatim>\<open>undefined\<close> give the empty string), and throws when one of them does.
\<close>

fun toString_throws :: "jsval \<Rightarrow> bool" where
  "toString_throws (JObject ps) = (map_of ps ''toString'' \<noteq> None)"
| "toString_throws (JArray xs) = (\<exists>x\<in>set xs. toString_throws x)"
| "toString_throws v = False"

text \<open>
  \<^verbatim>\<open>new Date(v)\<close>. The date a convertible array or object gives is that of its string,
  which is left to \<open>other\<close> as well. The limits of an engine (a stack that overflows on a
  very deep array) are not modelled.
\<close>

definition trunc :: "rat \<Rightarrow> int" where
  "trunc q = (if 0 \<le> q then \<lfloor>q\<rfloor> else \<lceil>q\<rceil>)"

fun new_Date :: "(jsval \<Rightarrow> int option) \<Rightarrow> jsval \<Rightarrow> js_error + js_date" where
  "new_Date other JUndefined = Inr Invalid_Date"
| "new_Date other JNull = Inr (Date 0)"
| "new_Date other (JBool b) = Inr (Date (if b then 1 else 0))"
| "new_Date other (JNumber q) =
     Inr (if \<bar>q\<bar> \<le> of_int maxTime then Date (trunc q) else Invalid_Date)"
| "new_Date other (JString s) = Inr (new_Date_string other s)"
| "new_Date other (JDate d) = Inr (TimeClip (getTime d))"
| "new_Date other v =
     (if toString_throws v then Inl TypeError else Inr (TimeClip (other v)))"

text \<open>A value that is no array and no object.\<close>

fun primitive :: "jsval \<Rightarrow> bool" where
  "primitive (JArray xs) = False"
| "primitive (JObject ps) = False"
| "primitive v = True"

section \<open>JSON\<close>

text \<open>
  The value \<^verbatim>\<open>JSON.stringify\<close> writes for a value: a Date becomes its ISO string
  (\<^verbatim>\<open>toJSON\<close>), or \<^verbatim>\<open>null\<close> when invalid; a property whose value is \<^verbatim>\<open>undefined\<close> is left
  out; \<^verbatim>\<open>undefined\<close> in an array becomes \<^verbatim>\<open>null\<close>.
\<close>

fun toJSON :: "jsval \<Rightarrow> jsval" where
  "toJSON (JDate d) = (case d of Date t \<Rightarrow> JString (toISOString t) | Invalid_Date \<Rightarrow> JNull)"
| "toJSON (JArray xs) = JArray (map toJSON xs)"
| "toJSON (JObject ps) = JObject (map (\<lambda>(k, v). (k, toJSON v)) (filter (\<lambda>(k, v). v \<noteq> JUndefined) ps))"
| "toJSON JUndefined = JNull"
| "toJSON v = v"

text \<open>
  A stored string is taken up to what \<^verbatim>\<open>JSON.parse\<close> makes of it: either it is not JSON
  text (\<^verbatim>\<open>JSON.parse\<close> throws a SyntaxError; the empty string is such a string), or it is
  the text of a JSON value, and \<^verbatim>\<open>JSON.parse\<close> returns that value. \<^verbatim>\<open>JSON.stringify\<close>
  writes the text of the value \<open>toJSON\<close> gives.
\<close>

datatype payload = Malformed | JSONText jsval

fun JSON_parse :: "payload \<Rightarrow> js_error + jsval" where
  "JSON_parse Malformed = Inl SyntaxError"
| "JSON_parse (JSONText v) = Inr v"

definition JSON_stringify :: "jsval \<Rightarrow> payload" where
  "JSON_stringify v = JSONText (toJSON v)"

section \<open>storageService.ts\<close>

text \<open>The state: what \<^verbatim>\<open>localStorage\<close> holds under \<^verbatim>\<open>LOCAL_STORAGE_KEY\<close>, if anything.\<close>

type_synonym storage = "payload option"

text \<open>\<^verbatim>\<open>const serialize = (appointments) => JSON.stringify(appointments)\<close>\<close>

definition serialize :: "jsval list \<Rightarrow> payload" where
  "serialize appointments = JSON_stringify (JArray appointments)"

text \<open>
  \<^verbatim>\<open>
  const deserialize = (json) => {
    const data = JSON.parse(json);
    return data.map((apt: any) => ({
      ...apt,
      start: new Date(apt.start),
      end: new Date(apt.end),
    }));
  };
  \<close>
  \<^verbatim>\<open>apt.start\<close> throws a TypeError on \<^verbatim>\<open>null\<close>, and \<^verbatim>\<open>new Date\<close> on a value it cannot
  convert; \<^verbatim>\<open>data.map\<close> is a function only on an array
  (no JSON value has a function as a property), and calling it otherwise throws a
  TypeError. A throw inside the callback ends \<^verbatim>\<open>map\<close>.
\<close>

definition revive :: "(jsval \<Rightarrow> int option) \<Rightarrow> jsval \<Rightarrow> js_error + jsval" where
  "revive other apt =
     (if nullish apt then Inl TypeError
      else case new_Date other (get_prop apt ''start'') of
             Inl e \<Rightarrow> Inl e
           | Inr start \<Rightarrow>
               (case new_Date other (get_prop apt ''end'') of
                  Inl e \<Rightarrow> Inl e
                | Inr end' \<Rightarrow>
                    Inr (JObject
                      (set_prop (set_prop (own_props apt) ''start'' (JDate start))
                         ''end'' (JDate end')))))"

fun map_throw :: "('a \<Rightarrow> 'e + 'b) \<Rightarrow> 'a list \<Rightarrow> 'e + 'b list" where
  "map_throw f [] = Inr []"
| "map_throw f (x # xs) =
     (case f x of Inl e \<Rightarrow> Inl e
      | Inr y \<Rightarrow> (case map_throw f xs of Inl e \<Rightarrow> Inl e | Inr ys \<Rightarrow> Inr (y # ys)))"

definition deserialize :: "(jsval \<Rightarrow> int option) \<Rightarrow> payload \<Rightarrow> js_error + jsval list" where
  "deserialize other json =
     (case JSON_parse json of Inl e \<Rightarrow> Inl e
      | Inr data \<Rightarrow>
          (case data of JArray xs \<Rightarrow> map_throw (revive other) xs | _ \<Rightarrow> Inl TypeError))"

text \<open>
  \<^verbatim>\<open>
  export const getAppointments = (): Appointment[] => {
    const stored = localStorage.getItem(LOCAL_STORAGE_KEY);
    if (!stored) return [];
    try { return deserialize(stored); }
    catch (e) { console.error("Failed to parse appointments", e); return []; }
  };
  \<close>
\<close>

definition getAppointments :: "(jsval \<Rightarrow> int option) \<Rightarrow> storage \<Rightarrow> jsval list" where
  "getAppointments other st =
     (case st of None \<Rightarrow> []
      | Some stored \<Rightarrow> (case deserialize other stored of Inl e \<Rightarrow> [] | Inr xs \<Rightarrow> xs))"

text \<open>
  \<^verbatim>\<open>
  export const saveAppointment = (appointment: Appointment): Appointment[] => {
    const current = getAppointments();
    const index = current.findIndex(a => a.id === appointment.id);
    let updated;
    if (index >= 0) { updated = [...current]; updated[index] = appointment; }
    else { updated = [...current, appointment]; }
    localStorage.setItem(LOCAL_STORAGE_KEY, serialize(updated));
    return updated;
  };
  \<close>
  The result is the new state of the storage and the returned array.
\<close>

fun findIndex :: "('a \<Rightarrow> bool) \<Rightarrow> 'a list \<Rightarrow> int" where
  "findIndex P [] = - 1"
| "findIndex P (x # xs) =
     (if P x then 0 else (let i = findIndex P xs in if i < 0 then - 1 else i + 1))"

definition saveAppointment ::
  "(jsval \<Rightarrow> int option) \<Rightarrow> storage \<Rightarrow> jsval \<Rightarrow> storage \<times> jsval list" where
  "saveAppointment other st appointment =
     (let current = getAppointments other st;
          index = findIndex (\<lambda>a. strict_eq (get_prop a ''id'') (get_prop appointment ''id'')) current;
          updated = (if index \<ge> 0 then current[nat index := appointment]
                     else current @ [appointment])
      in (Some (serialize updated), updated))"

text \<open>
  The overlap test that ends the callback of \<^verbatim>\<open>checkAvailability\<close>:
  \<^verbatim>\<open>
    const aptStart = apt.start.getTime();
    const aptEnd = apt.end.getTime();
    const checkStart = start.getTime();
    const checkEnd = end.getTime();
    return (checkStart < aptEnd && checkEnd > aptStart);
  \<close>
\<close>

definition overlaps :: "js_date \<Rightarrow> js_date \<Rightarrow> js_date \<Rightarrow> js_date \<Rightarrow> bool" where
  "overlaps start end' apt_start apt_end =
     (let aptStart = getTime apt_start;
          aptEnd = getTime apt_end;
          checkStart = getTime start;
          checkEnd = getTime end'
      in num_lt checkStart aptEnd \<and> num_gt checkEnd aptStart)"

text \<open>
  \<^verbatim>\<open>
  export const checkAvailability = (start: Date, end: Date, excludeId?: string): boolean => {
    const current = getAppointments();
    return !current.some(apt => {
      if (excludeId && apt.id === excludeId) return false;
      ... the overlap test ...
    });
  };
  \<close>
  \<^verbatim>\<open>v.getTime()\<close> throws a TypeError when \<open>v\<close> is not a Date; a throw inside the callback
  ends \<^verbatim>\<open>some\<close>, which otherwise stops at the first \<^verbatim>\<open>true\<close>.
\<close>

definition as_Date :: "jsval \<Rightarrow> js_error + js_date" where
  "as_Date v = (case v of JDate d \<Rightarrow> Inr d | _ \<Rightarrow> Inl TypeError)"

definition collides :: "js_date \<Rightarrow> js_date \<Rightarrow> jsval \<Rightarrow> jsval \<Rightarrow> js_error + bool" where
  "collides start end' excludeId apt =
     (if truthy excludeId \<and> strict_eq (get_prop apt ''id'') excludeId then Inr False
      else case as_Date (get_prop apt ''start'') of Inl e \<Rightarrow> Inl e
           | Inr apt_start \<Rightarrow>
               (case as_Date (get_prop apt ''end'') of Inl e \<Rightarrow> Inl e
                | Inr apt_end \<Rightarrow> Inr (overlaps start end' apt_start apt_end)))"

fun some_throw :: "('a \<Rightarrow> 'e + bool) \<Rightarrow> 'a list \<Rightarrow> 'e + bool" where
  "some_throw f [] = Inr False"
| "some_throw f (x # xs) =
     (case f x of Inl e \<Rightarrow> Inl e
      | Inr b \<Rightarrow> if b then Inr True else some_throw f xs)"

definition checkAvailability ::
  "(jsval \<Rightarrow> int option) \<Rightarrow> storage \<Rightarrow> js_date \<Rightarrow> js_date \<Rightarrow> jsval \<Rightarrow> js_error + bool" where
  "checkAvailability other st start end' excludeId =
     (let current = getAppointments other st
      in case some_throw (collides start end' excludeId) current of
           Inl e \<Rightarrow> Inl e
         | Inr b \<Rightarrow> Inr (\<not> b))"

section \<open>types.ts\<close>

text \<open>
  \<^verbatim>\<open>interface Appointment\<close>, and the object a value of that type is at run time. The
  optional \<^verbatim>\<open>description\<close> is absent when \<open>None\<close>.
\<close>

datatype AppointmentType = Meeting | Block | Personal | Availability

fun type_name :: "AppointmentType \<Rightarrow> string" where
  "type_name Meeting = ''meeting''"
| "type_name Block = ''block''"
| "type_name Personal = ''personal''"
| "type_name Availability = ''availability''"

record Appointment =
  apt_id :: string
  apt_title :: string
  apt_start :: js_date
  apt_end :: js_date
  apt_requesterName :: string
  apt_description :: "string option"
  apt_type :: AppointmentType

definition obj_of :: "Appointment \<Rightarrow> jsval" where
  "obj_of a = JObject
     ([(''id'', JString (apt_id a)), (''title'', JString (apt_title a)),
       (''start'', JDate (apt_start a)), (''end'', JDate (apt_end a)),
       (''requesterName'', JString (apt_requesterName a))]
      @ (case apt_description a of None \<Rightarrow> [] | Some d \<Rightarrow> [(''description'', JString d)])
      @ [(''type'', JString (type_name (apt_type a)))])"

datatype Role = Owner | Colleague

section \<open>BookingModal: handleSubmit\<close>

text \<open>
  The state of the form when it is submitted. \<open>form_duration\<close> is a whole number of
  minutes, as every option of the select is.
\<close>

record BookingForm =
  form_title :: string
  form_name :: string
  form_date :: string
  form_time :: string
  form_duration :: int

text \<open>
  What the handler does: it sets one of its three error messages and returns, or it
  saves; a TypeError out of \<^verbatim>\<open>checkAvailability\<close> would leave the handler.
  \<^item> \<open>AllFieldsRequired\<close>: "All fields are required."
  \<^item> \<open>PastSlot\<close>: "Cannot book in the past."
  \<^item> \<open>OverlapError\<close>: "This time slot overlaps with an existing appointment."
\<close>

datatype submit_error = AllFieldsRequired | PastSlot | OverlapError

datatype outcome = Rejected submit_error | Saved | Thrown js_error

text \<open>
  \<^verbatim>\<open>
    if (!date || !time || !title || !name) { setError("All fields are required."); return; }
    const startDateTime = new Date(`${date}T${time}`);
    const endDateTime = new Date(startDateTime.getTime() + duration * 60000);
    if (startDateTime < new Date()) { setError("Cannot book in the past."); return; }
    const isAvailable = checkAvailability(startDateTime, endDateTime, existingAppointment?.id);
    if (!isAvailable) { setError("This time slot overlaps ..."); return; }
    let type: Appointment['type'] = 'meeting';
    if (currentUserRole === 'owner' && !existingAppointment) { type = 'availability'; }
    else if (currentUserRole === 'colleague' && isBookingOpenSlot) { type = 'meeting'; }
    const appointment: Appointment = {
      id: existingAppointment ? existingAppointment.id : crypto.randomUUID(),
      title, start: startDateTime, end: endDateTime, requesterName: name, type: type };
    saveAppointment(appointment);
  \<close>
  with \<^verbatim>\<open>isBookingOpenSlot = existingAppointment?.type === 'availability'\<close>. The inputs
  beside the props and the form: \<open>now\<close>, the value of \<^verbatim>\<open>new Date()\<close>, and \<open>uuid\<close>, the value of
  \<^verbatim>\<open>crypto.randomUUID()\<close>. The result is the outcome and the new state of the storage.
\<close>

definition startDateTime :: "(jsval \<Rightarrow> int option) \<Rightarrow> BookingForm \<Rightarrow> js_date" where
  "startDateTime other f = new_Date_string other (form_date f @ ''T'' @ form_time f)"

definition endDateTime :: "(jsval \<Rightarrow> int option) \<Rightarrow> BookingForm \<Rightarrow> js_date" where
  "endDateTime other f =
     TimeClip (num_add (getTime (startDateTime other f)) (Some (form_duration f * 60000)))"

definition new_type :: "Role \<Rightarrow> jsval \<Rightarrow> string" where
  "new_type currentUserRole existingAppointment =
     (let isBookingOpenSlot =
            strict_eq (opt_prop existingAppointment ''type'') (JString ''availability'')
      in if currentUserRole = Owner \<and> \<not> truthy existingAppointment then ''availability''
         else if currentUserRole = Colleague \<and> isBookingOpenSlot then ''meeting''
         else ''meeting'')"

definition new_appointment ::
  "(jsval \<Rightarrow> int option) \<Rightarrow> string \<Rightarrow> Role \<Rightarrow> jsval \<Rightarrow> BookingForm \<Rightarrow> jsval" where
  "new_appointment other uuid currentUserRole existingAppointment f =
     JObject
       [(''id'', if truthy existingAppointment then get_prop existingAppointment ''id''
                 else JString uuid),
        (''title'', JString (form_title f)),
        (''start'', JDate (startDateTime other f)),
        (''end'', JDate (endDateTime other f)),
        (''requesterName'', JString (form_name f)),
        (''type'', JString (new_type currentUserRole existingAppointment))]"

definition handleSubmit ::
  "(jsval \<Rightarrow> int option) \<Rightarrow> js_date \<Rightarrow> string \<Rightarrow> Role \<Rightarrow> jsval \<Rightarrow> BookingForm
    \<Rightarrow> storage \<Rightarrow> outcome \<times> storage" where
  "handleSubmit other now uuid currentUserRole existingAppointment f st =
     (if form_date f = [] \<or> form_time f = [] \<or> form_title f = [] \<or> form_name f = []
      then (Rejected AllFieldsRequired, st)
      else if num_lt (getTime (startDateTime other f)) (getTime now)
      then (Rejected PastSlot, st)
      else case checkAvailability other st (startDateTime other f) (endDateTime other f)
                  (opt_prop existingAppointment ''id'') of
             Inl e \<Rightarrow> (Thrown e, st)
           | Inr isAvailable \<Rightarrow>
               if \<not> isAvailable then (Rejected OverlapError, st)
               else (Saved,
                     fst (saveAppointment other st
                            (new_appointment other uuid currentUserRole existingAppointment f))))"

section \<open>BookingModal: the form a colleague submits for an open slot\<close>

text \<open>
  When the modal opens on an existing appointment, its effect sets the date, the time
  and the duration of the form:
  \<^verbatim>\<open>
    if (initialDate) { setDate(initialDate.toISOString().split('T')[0]); }
    if (initialTime) setTime(initialTime);
    if (existingAppointment) {
      setDuration((existingAppointment.end.getTime()
                   - existingAppointment.start.getTime()) / 60000);
      ...
  \<close>
  For a colleague on an open slot the three inputs are disabled, and the title and the
  name are what the colleague types; the calendar passes a time that is not empty. \<open>None\<close> stands for what the model of the form does
  not cover: an invalid \<^verbatim>\<open>initialDate\<close>, on which \<^verbatim>\<open>toISOString\<close> throws, and a span that is
  not a whole number of minutes.
\<close>

definition minutes_between :: "js_date \<Rightarrow> js_date \<Rightarrow> int option" where
  "minutes_between s e =
     (case (s, e) of
        (Date a, Date b) \<Rightarrow> if (b - a) mod 60000 = 0 then Some ((b - a) div 60000) else None
      | _ \<Rightarrow> None)"

definition booking_form ::
  "js_date \<Rightarrow> string \<Rightarrow> Appointment \<Rightarrow> string \<Rightarrow> string \<Rightarrow> BookingForm option" where
  "booking_form initialDate initialTime existing typed_title typed_name =
     (case initialDate of
        Invalid_Date \<Rightarrow> None
      | Date t \<Rightarrow>
          (case minutes_between (apt_start existing) (apt_end existing) of
             None \<Rightarrow> None
           | Some d \<Rightarrow>
               Some \<lparr>form_title = typed_title, form_name = typed_name,
                     form_date = takeWhile (\<lambda>c. c \<noteq> CHR ''T'') (toISOString t),
                     form_time = initialTime, form_duration = d\<rparr>))"

text \<open>
  The appointment the handler builds, read as a value of the interface: the id, the
  type, start and end, and the title and name of the form; no description.
\<close>

definition as_appointment ::
  "string \<Rightarrow> AppointmentType \<Rightarrow> js_date \<Rightarrow> js_date \<Rightarrow> BookingForm \<Rightarrow> Appointment" where
  "as_appointment i t s e f =
     \<lparr>apt_id = i, apt_title = form_title f, apt_start = s, apt_end = e,
      apt_requesterName = form_name f, apt_description = None, apt_type = t\<rparr>"

section \<open>Example data\<close>

text \<open>
  An engine in the UTC time zone, on the strings the date and time inputs give:
  \<^verbatim>\<open>YYYY-MM-DDTHH:mm\<close> is read as that time in UTC; nothing else is read.
\<close>

definition utc_engine :: "jsval \<Rightarrow> int option" where
  "utc_engine v = (case v of JString s \<Rightarrow> parse_utc (s @ '':00.000Z'') | _ \<Rightarrow> None)"

text \<open>
  Tuesday 2024-06-04: an open slot from 10:00 to 10:30 UTC (and the same slot under
  the empty string as its id), a meeting from 10:30 to 11:00, and the Monday before as
  the present.
\<close>

definition open_slot :: Appointment where
  "open_slot = \<lparr>apt_id = ''a1'', apt_title = ''Open for Booking'',
     apt_start = Date 1717495200000, apt_end = Date 1717497000000,
     apt_requesterName = ''Me'', apt_description = None, apt_type = Availability\<rparr>"

definition unnamed_slot :: Appointment where
  "unnamed_slot = open_slot\<lparr>apt_id := []\<rparr>"

definition later_meeting :: Appointment where
  "later_meeting = \<lparr>apt_id = ''m2'', apt_title = ''Planning'',
     apt_start = Date 1717497000000, apt_end = Date 1717498800000,
     apt_requesterName = ''Sam'', apt_description = None, apt_type = Meeting\<rparr>"

definition monday :: js_date where
  "monday = Date 1717400000000"

definition review_form :: "int \<Rightarrow> BookingForm" where
  "review_form minutes = \<lparr>form_title = ''Code review'', form_name = ''Kim'',
     form_date = ''2024-06-04'', form_time = ''10:00'', form_duration = minutes\<rparr>"

text \<open>A meeting from 10:45 to 11:15, across the one from 10:30 to 11:00.\<close>

definition clash_meeting :: Appointment where
  "clash_meeting = \<lparr>apt_id = ''m3'', apt_title = ''Sync'',
     apt_start = Date 1717497900000, apt_end = Date 1717499700000,
     apt_requesterName = ''Ada'', apt_description = None, apt_type = Meeting\<rparr>"

text \<open>The owner's form on the open slot, with a new label.\<close>

definition owner_edit_form :: BookingForm where
  "owner_edit_form = \<lparr>form_title = ''Office hours'', form_name = ''Me'',
     form_date = ''2024-06-04'', form_time = ''10:00'', form_duration = 30\<rparr>"

definition example_store :: storage where
  "example_store = Some (serialize (map obj_of [open_slot, later_meeting]))"

text \<open>
  A browser whose zone is a fixed number of minutes east of UTC reads
  \<^verbatim>\<open>YYYY-MM-DDTHH:mm\<close> as that local time; \<open>utc_engine\<close> is the case of no offset.
\<close>

definition zone_engine :: "int \<Rightarrow> jsval \<Rightarrow> int option" where
  "zone_engine offset v =
     (case v of
        JString s \<Rightarrow> map_option (\<lambda>t. t - offset * 60000) (parse_utc (s @ '':00.000Z''))
      | _ \<Rightarrow> None)"

text \<open>
  Two hours east of UTC, Tuesday 2024-06-04: the day starts at 22:00 UTC of Monday, and
  an open slot from 10:00 to 10:30 local time is from 08:00 to 08:30 UTC. The calendar
  passes the start of the day and \<^verbatim>\<open>10:00\<close> to the modal; the present is the Sunday
  before. A slot of the same local hours five hours west of UTC is from 15:00 UTC, on a
  day that starts at 05:00 UTC.
\<close>

definition east_slot :: Appointment where
  "east_slot = \<lparr>apt_id = ''a1'', apt_title = ''Open for Booking'',
     apt_start = Date 1717488000000, apt_end = Date 1717489800000,
     apt_requesterName = ''Me'', apt_description = None, apt_type = Availability\<rparr>"

definition east_day :: js_date where
  "east_day = Date 1717452000000"

definition east_form :: BookingForm where
  "east_form = \<lparr>form_title = ''Code review'', form_name = ''Kim'',
     form_date = ''2024-06-03'', form_time = ''10:00'', form_duration = 30\<rparr>"

definition sunday :: js_date where
  "sunday = Date 1717329600000"

definition west_slot :: Appointment where
  "west_slot = \<lparr>apt_id = ''a1'', apt_title = ''Open for Booking'',
     apt_start = Date 1717513200000, apt_end = Date 1717515000000,
     apt_requesterName = ''Me'', apt_description = None, apt_type = Availability\<rparr>"

definition west_day :: js_date where
  "west_day = Date 1717477200000"

section \<open>Properties of the overlap test\<close>

lemma num_lt_iff: "num_lt a b = (\<exists>x y. a = Some x \<and> b = Some y \<and> x < y)"
  by (cases a; cases b) auto

lemma overlaps_Date:
  "overlaps (Date s) (Date e) (Date s') (Date e') = (s < e' \<and> e > s')"
  by (simp add: overlaps_def num_gt_def)

lemma overlaps_sym: "overlaps s e s' e' = overlaps s' e' s e"
  by (auto simp: overlaps_def num_gt_def Let_def)

lemma overlaps_touching: "\<not> overlaps a m m b"
  by (cases m) (auto simp: overlaps_def num_gt_def num_lt_iff)

text \<open>
  C6. The overlap test on two ranges of valid dates is true iff
  \<open>start < other.end \<and> end > other.start\<close>; it is symmetric for all pairs of ranges
  (with an invalid date on either side it is false both ways); and ranges that only
  touch never overlap, such as [10:00,10:30) and [10:30,11:00) of one day, here in
  milliseconds since midnight.
\<close>

theorem overlaps_half_open_symmetric:
  "overlaps (Date s) (Date e) (Date s') (Date e') = (s < e' \<and> e > s')
   \<and> overlaps a b c d = overlaps c d a b
   \<and> \<not> overlaps a m m b'
   \<and> \<not> overlaps (Date 36000000) (Date 37800000) (Date 37800000) (Date 39600000)
   \<and> \<not> overlaps (Date 37800000) (Date 39600000) (Date 36000000) (Date 37800000)"
  using overlaps_sym [of a b c d] overlaps_touching [of a m b']
  by (simp add: overlaps_Date)

section \<open>An ISO string is read back as the time it was written from\<close>

text \<open>Floor division by a positive number, without the division.\<close>

lemma div_bounds:
  fixes x n :: int
  assumes "0 < n"
  shows "n * (x div n) \<le> x" "x < n * (x div n) + n"
proof -
  have "x = n * (x div n) + x mod n" by simp
  moreover have "0 \<le> x mod n" "x mod n < n" using assms by simp_all
  ultimately show "n * (x div n) \<le> x" "x < n * (x div n) + n" by linarith+
qed

lemma DayFromYear_bounds:
  "146097 * (y - 1970) - 592 \<le> 400 * DayFromYear y"
  "400 * DayFromYear y \<le> 146097 * (y - 1970) + 592"
proof -
  define A B C where "A = (y - 1969) div 4" and "B = (y - 1901) div 100"
    and "C = (y - 1601) div 400"
  have eq: "DayFromYear y = 365 * (y - 1970) + A - B + C"
    by (simp add: DayFromYear_def A_def B_def C_def)
  have "4 * A \<le> y - 1969" "y - 1969 < 4 * A + 4"
       "100 * B \<le> y - 1901" "y - 1901 < 100 * B + 100"
       "400 * C \<le> y - 1601" "y - 1601 < 400 * C + 400"
    unfolding A_def B_def C_def by (simp_all add: div_bounds)
  then have "146097 * (y - 1970) - 592 \<le> 400 * (365 * (y - 1970) + A - B + C)
    \<and> 400 * (365 * (y - 1970) + A - B + C) \<le> 146097 * (y - 1970) + 592"
    by (simp add: algebra_simps)
  then show "146097 * (y - 1970) - 592 \<le> 400 * DayFromYear y"
    "400 * DayFromYear y \<le> 146097 * (y - 1970) + 592"
    unfolding eq by simp_all
qed

text \<open>
  The year computed is the year of the day: the largest one that starts on or before
  it.
\<close>

lemma YearFromDay_bracket:
  "DayFromYear (YearFromDay d) \<le> d" "d < DayFromYear (YearFromDay d + 1)"
proof -
  define k where "k = (400 * d) div 146097"
  have k1: "146097 * k \<le> 400 * d" and k2: "400 * d < 146097 * k + 146097"
    unfolding k_def using div_bounds [of 146097 "400 * d", simplified] by simp_all
  have lo: "DayFromYear (1970 + k - 1) \<le> d"
    using DayFromYear_bounds(2) [of "1970 + k - 1"] k1 by simp
  have hi: "d < DayFromYear (1970 + k + 2)"
    using DayFromYear_bounds(1) [of "1970 + k + 2"] k2 by simp
  show "DayFromYear (YearFromDay d) \<le> d" "d < DayFromYear (YearFromDay d + 1)"
    unfolding YearFromDay_def Let_def k_def[symmetric]
    using lo hi by (auto simp: algebra_simps)
qed

lemma YearFromDay_range:
  assumes "\<bar>d\<bar> \<le> 100000000"
  shows "\<bar>YearFromDay d\<bar> < 1000000"
proof -
  define k where "k = (400 * d) div 146097"
  have k1: "146097 * k \<le> 400 * d" and k2: "400 * d < 146097 * k + 146097"
    unfolding k_def using div_bounds [of 146097 "400 * d", simplified] by simp_all
  have "\<bar>k\<bar> \<le> 300000" using k1 k2 assms by linarith
  then show ?thesis
    unfolding YearFromDay_def Let_def k_def[symmetric] by (auto split: if_splits)
qed

lemma div_succ:
  fixes x n :: int
  assumes "0 < n"
  shows "(x + 1) div n = x div n + (if (x + 1) mod n = 0 then 1 else 0)"
proof -
  define q r where "q = x div n" and "r = x mod n"
  have x: "x = n * q + r" and r: "0 \<le> r" "r < n"
    using assms by (simp_all add: q_def r_def)
  show ?thesis
  proof (cases "r + 1 < n")
    case True
    have e: "x + 1 = n * q + (r + 1)" using x by simp
    have "(x + 1) div n = q" using True r
      by (intro int_div_pos_eq [where r = "r + 1"]) (simp_all add: e)
    moreover have "(x + 1) mod n = r + 1" using True r
      by (intro int_mod_pos_eq [where q = q]) (simp_all add: e)
    ultimately show ?thesis using r by (simp add: q_def)
  next
    case False
    then have e: "x + 1 = n * (q + 1) + 0" using x r by (simp add: algebra_simps)
    have "(x + 1) div n = q + 1" using assms
      by (intro int_div_pos_eq [where r = 0]) (simp_all add: e)
    moreover have "(x + 1) mod n = 0" using assms
      by (intro int_mod_pos_eq [where q = "q + 1"]) (simp_all add: e)
    ultimately show ?thesis by (simp add: q_def)
  qed
qed

lemma mod_shift:
  fixes y n k :: int
  shows "(y - n * k) mod n = y mod n"
proof -
  have "y - n * k = y + n * (- k)" by simp
  then show ?thesis by (simp only: mod_mult_self2)
qed

lemma mod_4_shift: "(y - 1968) mod 4 = (y::int) mod 4"
  using mod_shift [of y 4 492] by simp

lemma mod_100_shift: "(y - 1900) mod 100 = (y::int) mod 100"
  using mod_shift [of y 100 19] by simp

lemma mod_400_shift: "(y - 1600) mod 400 = (y::int) mod 400"
  using mod_shift [of y 400 4] by simp

lemma leap_divisors: "(y::int) mod 400 = 0 \<Longrightarrow> y mod 100 = 0" "(y::int) mod 100 = 0 \<Longrightarrow> y mod 4 = 0"
proof -
  have "(100::int) dvd 400" "(4::int) dvd 100" by simp_all
  then show "(y::int) mod 400 = 0 \<Longrightarrow> y mod 100 = 0" "(y::int) mod 100 = 0 \<Longrightarrow> y mod 4 = 0"
    by (meson dvd_trans mod_eq_0_iff_dvd)+
qed

lemma DayFromYear_Suc: "DayFromYear (y + 1) = DayFromYear y + DaysInYear y"
proof -
  have a: "(y + 1 - 1969) div 4 = (y - 1969) div 4 + (if y mod 4 = 0 then 1 else 0)"
    using div_succ [of 4 "y - 1969"] mod_4_shift [of y] by (simp add: algebra_simps)
  have b: "(y + 1 - 1901) div 100 = (y - 1901) div 100 + (if y mod 100 = 0 then 1 else 0)"
    using div_succ [of 100 "y - 1901"] mod_100_shift [of y] by (simp add: algebra_simps)
  have c: "(y + 1 - 1601) div 400 = (y - 1601) div 400 + (if y mod 400 = 0 then 1 else 0)"
    using div_succ [of 400 "y - 1601"] mod_400_shift [of y] by (simp add: algebra_simps)
  show ?thesis
    unfolding DayFromYear_def DaysInYear_def InLeapYear_def a b c
    using leap_divisors [of y] by auto
qed

subsection \<open>Digits\<close>

lemma digits_table:
  "\<forall>n\<in>set [0..9]. digit_value (digit_char n) = Some n
      \<and> digit_char n \<noteq> CHR ''+'' \<and> digit_char n \<noteq> CHR ''-''"
  by code_simp

lemma digit_value_digit_char: "0 \<le> n \<Longrightarrow> n \<le> 9 \<Longrightarrow> digit_value (digit_char n) = Some n"
  using digits_table by simp

lemma digit_char_not_sign:
  "0 \<le> n \<Longrightarrow> n \<le> 9 \<Longrightarrow> digit_char n \<noteq> CHR ''+'' \<and> digit_char n \<noteq> CHR ''-''"
  using digits_table by simp

lemma length_pad [simp]: "length (pad k n) = k"
  by (induction k arbitrary: n) simp_all

lemma read_num_append:
  "read_num acc (xs @ ys) = (case read_num acc xs of None \<Rightarrow> None | Some a \<Rightarrow> read_num a ys)"
  by (induction xs arbitrary: acc) (simp_all split: option.splits)

lemma read_num_pad:
  "0 \<le> n \<Longrightarrow> n < 10 ^ k \<Longrightarrow> read_num acc (pad k n) = Some (acc * 10 ^ k + n)"
proof (induction k arbitrary: n)
  case 0
  then show ?case by simp
next
  case (Suc k)
  have d: "0 \<le> n mod 10" "n mod 10 \<le> 9"
    using pos_mod_bound [of 10 n] by simp_all
  have q: "0 \<le> n div 10" "n div 10 < 10 ^ k"
    using Suc.prems by (simp_all add: div_less_iff_less_mult pos_imp_zdiv_nonneg_iff mult.commute)
  have n: "n = 10 * (n div 10) + n mod 10" by simp
  have "read_num acc (pad (Suc k) n) = Some (10 * (acc * 10 ^ k + n div 10) + n mod 10)"
    by (simp add: read_num_append Suc.IH [OF q] digit_value_digit_char [OF d])
  also have "10 * (acc * 10 ^ k + n div 10) + n mod 10 = acc * 10 ^ Suc k + n"
    using n by (simp add: algebra_simps)
  finally show ?case .
qed

lemma take_digits_pad:
  "0 \<le> n \<Longrightarrow> n < 10 ^ k \<Longrightarrow> take_digits k (pad k n @ r) = Some (n, r)"
  by (simp add: take_digits_def read_num_pad)

lemma expect_Cons [simp]: "expect c (c # r) = Some r"
  by (simp add: expect_def)

lemma pad_Suc_hd:
  "0 \<le> n \<Longrightarrow> n < 10 ^ Suc k \<Longrightarrow> \<exists>c cs. pad (Suc k) n = c # cs \<and> c \<noteq> CHR ''+'' \<and> c \<noteq> CHR ''-''"
proof (induction k arbitrary: n)
  case 0
  then show ?case using digit_char_not_sign [of n] by simp
next
  case (Suc k)
  have q: "0 \<le> n div 10" "n div 10 < 10 ^ Suc k"
    using Suc.prems by (simp_all add: div_less_iff_less_mult pos_imp_zdiv_nonneg_iff mult.commute)
  from Suc.IH [OF q] obtain c cs where "pad (Suc k) (n div 10) = c # cs"
    "c \<noteq> CHR ''+''" "c \<noteq> CHR ''-''" by blast
  then show ?case by simp
qed

lemma read_year_string:
  assumes "\<bar>y\<bar> < 1000000"
  shows "read_year (year_string y @ r) = Some (y, r)"
proof (cases "0 \<le> y \<and> y \<le> 9999")
  case True
  then have y: "0 \<le> y" "y < 10 ^ 4" by simp_all
  from pad_Suc_hd [of y 3] y obtain c cs where
    p: "pad 4 y = c # cs" and c: "c \<noteq> CHR ''+''" "c \<noteq> CHR ''-''"
    by (auto simp: eval_nat_numeral)
  have "read_year (pad 4 y @ r) = take_digits 4 (pad 4 y @ r)"
    using c by (simp add: read_year_def p)
  then show ?thesis using True take_digits_pad [OF y, of r] by (simp add: year_string_def)
next
  case False
  have a: "0 \<le> \<bar>y\<bar>" "\<bar>y\<bar> < 10 ^ 6" using assms by simp_all
  show ?thesis
    using False take_digits_pad [OF a, of r]
    by (auto simp: year_string_def read_year_def)
qed

subsection \<open>Time of day, month and day\<close>

lemma MakeTime_parts:
  assumes "0 \<le> tw" "tw < 86400000"
  defines "h \<equiv> tw div 3600000" and "mi \<equiv> tw div 60000 mod 60"
    and "s \<equiv> tw div 1000 mod 60" and "ms \<equiv> tw mod 1000"
  shows "MakeTime h mi s ms = tw"
    and "0 \<le> h" "h \<le> 23" "0 \<le> mi" "mi \<le> 59" "0 \<le> s" "s \<le> 59" "0 \<le> ms" "ms \<le> 999"
proof -
  define a b c where "a = tw div 1000" and "b = a div 60" and "c = b div 60"
  have b: "tw div 60000 = b"
    using zdiv_zmult2_eq [of 60 tw 1000] by (simp add: a_def b_def)
  have c: "tw div 3600000 = c"
    using zdiv_zmult2_eq [of 60 tw 60000] b by (simp add: c_def)
  have e1: "tw = 1000 * a + ms" by (simp add: a_def ms_def)
  have e2: "a = 60 * b + s" by (simp add: b_def s_def a_def)
  have e3: "b = 60 * c + mi" by (simp add: c_def mi_def b)
  show "MakeTime h mi s ms = tw"
    unfolding MakeTime_def h_def c using e1 e2 e3 by linarith
  show "0 \<le> mi" "0 \<le> s" "0 \<le> ms" by (simp_all add: mi_def s_def ms_def)
  have "mi < 60" "s < 60" "ms < 1000" by (simp_all add: mi_def s_def ms_def)
  then show "mi \<le> 59" "s \<le> 59" "ms \<le> 999" by simp_all
  show "0 \<le> h" using assms(1) by (simp add: h_def pos_imp_zdiv_nonneg_iff)
  have "3600000 * c \<le> tw" using div_bounds(1) [of 3600000 tw] c by simp
  then have "c \<le> 23" using assms(2) by linarith
  then show "h \<le> 23" using c by (simp add: h_def)
qed

lemma MonthStart_simps:
  "MonthStart leap 0 = 0" "MonthStart leap 1 = 31"
  "MonthStart leap 2 = 59 + (if leap then 1 else 0)"
  "MonthStart leap 3 = 90 + (if leap then 1 else 0)"
  "MonthStart leap 4 = 120 + (if leap then 1 else 0)"
  "MonthStart leap 5 = 151 + (if leap then 1 else 0)"
  "MonthStart leap 6 = 181 + (if leap then 1 else 0)"
  "MonthStart leap 7 = 212 + (if leap then 1 else 0)"
  "MonthStart leap 8 = 243 + (if leap then 1 else 0)"
  "MonthStart leap 9 = 273 + (if leap then 1 else 0)"
  "MonthStart leap 10 = 304 + (if leap then 1 else 0)"
  "MonthStart leap 11 = 334 + (if leap then 1 else 0)"
  "MonthStart leap 12 = 365 + (if leap then 1 else 0)"
  by (simp_all add: MonthStart_def)

lemma MonthFromDay_range:
  assumes "0 \<le> dwy" "dwy < 365 + L" "L = (if leap then 1 else 0)"
  defines "m \<equiv> MonthFromDay leap dwy"
  shows "0 \<le> m \<and> m \<le> 11 \<and> MonthStart leap m \<le> dwy \<and> dwy < MonthStart leap (m + 1)
         \<and> MonthStart leap (m + 1) - MonthStart leap m \<le> 31"
proof -
  have "dwy < 31 \<or> (31 \<le> dwy \<and> dwy < 59 + L) \<or> (59 + L \<le> dwy \<and> dwy < 90 + L)
      \<or> (90 + L \<le> dwy \<and> dwy < 120 + L) \<or> (120 + L \<le> dwy \<and> dwy < 151 + L)
      \<or> (151 + L \<le> dwy \<and> dwy < 181 + L) \<or> (181 + L \<le> dwy \<and> dwy < 212 + L)
      \<or> (212 + L \<le> dwy \<and> dwy < 243 + L) \<or> (243 + L \<le> dwy \<and> dwy < 273 + L)
      \<or> (273 + L \<le> dwy \<and> dwy < 304 + L) \<or> (304 + L \<le> dwy \<and> dwy < 334 + L)
      \<or> (334 + L \<le> dwy \<and> dwy < 365 + L)"
    using assms(2) by linarith
  moreover have L: "0 \<le> L" "L \<le> 1" using assms(3) by (simp_all split: if_splits)
  ultimately show ?thesis
    unfolding m_def MonthFromDay_def MonthStart_simps assms(3) [symmetric]
    using assms(1) by (elim disjE conjE) (simp_all add: MonthStart_simps assms(3) [symmetric])
qed

lemma Month_parts:
  assumes "0 \<le> dwy" "dwy < DaysInYear y"
  defines "m \<equiv> MonthFromDay (InLeapYear y) dwy"
  shows "0 \<le> m" "m \<le> 11"
    and "1 \<le> dwy - MonthStart (InLeapYear y) m + 1"
    and "dwy - MonthStart (InLeapYear y) m + 1 \<le> DaysInMonth y m"
    and "DaysInMonth y m \<le> 31"
  using MonthFromDay_range [of dwy "if InLeapYear y then 1 else 0" "InLeapYear y"] assms(1,2)
  unfolding m_def DaysInMonth_def DaysInYear_def
  by (simp_all split: if_splits)

subsection \<open>The round trip of a time value\<close>

lemma parse_utc_toISOString:
  assumes "\<bar>t\<bar> \<le> maxTime"
  shows "parse_utc (toISOString t) = Some t"
proof -
  define d tw where "d = Day t" and "tw = TimeWithinDay t"
  define y where "y = YearFromDay d"
  define dwy where "dwy = d - DayFromYear y"
  define m where "m = MonthFromDay (InLeapYear y) dwy"
  define dt where "dt = dwy - MonthStart (InLeapYear y) m + 1"
  define h mi sec ms where "h = tw div 3600000" and "mi = tw div 60000 mod 60"
    and "sec = tw div 1000 mod 60" and "ms = tw mod 1000"
  have t: "t = d * msPerDay + tw"
    by (simp add: d_def tw_def Day_def TimeWithinDay_def)
  have tw: "0 \<le> tw" "tw < 86400000"
    by (simp_all add: tw_def TimeWithinDay_def msPerDay_def)
  have "86400000 * d \<le> t" "t < 86400000 * d + 86400000"
    using div_bounds [of 86400000 t] by (simp_all add: d_def Day_def msPerDay_def)
  then have d: "\<bar>d\<bar> \<le> 100000000" using assms unfolding maxTime_def by linarith
  have y: "\<bar>y\<bar> < 1000000" unfolding y_def by (rule YearFromDay_range [OF d])
  have dwy: "0 \<le> dwy" "dwy < DaysInYear y"
    using YearFromDay_bracket [of d] DayFromYear_Suc [of y] by (simp_all add: dwy_def y_def)
  note mp = Month_parts [OF dwy, folded m_def, folded dt_def]
  note tp = MakeTime_parts [OF tw, folded h_def mi_def sec_def ms_def]
  have day: "MakeDay y m dt = d"
    by (simp add: MakeDay_def dt_def dwy_def)
  have iso: "toISOString t = year_string y @ ''-'' @ pad 2 (m + 1) @ ''-'' @ pad 2 dt @ ''T''
         @ pad 2 h @ '':'' @ pad 2 mi @ '':'' @ pad 2 sec @ ''.'' @ pad 3 ms @ ''Z''"
    unfolding toISOString_def Let_def d_def tw_def y_def dwy_def m_def dt_def
      h_def mi_def sec_def ms_def ..
  have p2: "\<And>n r. 0 \<le> n \<Longrightarrow> n < 100 \<Longrightarrow> take_digits 2 (pad 2 n @ r) = Some (n, r)"
    using take_digits_pad [where k = 2] by simp
  have p3: "\<And>n r. 0 \<le> n \<Longrightarrow> n < 1000 \<Longrightarrow> take_digits 3 (pad 3 n @ r) = Some (n, r)"
    using take_digits_pad [where k = 3] by simp
  have f1: "take_digits 2 (pad 2 (m + 1) @ r) = Some (m + 1, r)" for r
    using mp by (intro p2) simp_all
  have f2: "take_digits 2 (pad 2 dt @ r) = Some (dt, r)" for r
    using mp by (intro p2) simp_all
  have f3: "take_digits 2 (pad 2 h @ r) = Some (h, r)" for r
    using tp by (intro p2) simp_all
  have f4: "take_digits 2 (pad 2 mi @ r) = Some (mi, r)" for r
    using tp by (intro p2) simp_all
  have f5: "take_digits 2 (pad 2 sec @ r) = Some (sec, r)" for r
    using tp by (intro p2) simp_all
  have f6: "take_digits 3 (pad 3 ms @ r) = Some (ms, r)" for r
    using tp by (intro p2 p3) simp_all
  have "parse_utc (toISOString t) = Some (MakeDate (MakeDay y m dt) tw)"
    unfolding iso parse_utc_def
    using mp tp by (simp add: read_year_string [OF y] f1 f2 f3 f4 f5 f6)
  then show ?thesis by (simp add: day MakeDate_def t)
qed

section \<open>Serializing and reading back\<close>

lemma valid_date_iff: "valid_date d = (\<exists>t. d = Date t \<and> \<bar>t\<bar> \<le> maxTime)"
  by (cases d) (simp_all add: valid_date_def)

lemma new_Date_toJSON_valid:
  "valid_date d \<Longrightarrow> new_Date other (toJSON (JDate d)) = Inr d"
  by (auto simp: valid_date_iff new_Date_string_def parse_utc_toISOString TimeClip_def)

lemma new_Date_toJSON_invalid:
  "new_Date other (toJSON (JDate Invalid_Date)) = Inr (Date 0)"
  by simp

lemma get_prop_obj_of [simp]:
  "get_prop (obj_of a) ''id'' = JString (apt_id a)"
  "get_prop (obj_of a) ''start'' = JDate (apt_start a)"
  "get_prop (obj_of a) ''end'' = JDate (apt_end a)"
  "get_prop (obj_of a) ''type'' = JString (type_name (apt_type a))"
  by (simp_all add: obj_of_def split: option.splits)

lemma revive_toJSON_obj_of:
  assumes "valid_date (apt_start a)" "valid_date (apt_end a)"
  shows "revive other (toJSON (obj_of a)) = Inr (obj_of a)"
proof -
  obtain s e where se: "apt_start a = Date s" "apt_end a = Date e"
    and b: "\<bar>s\<bar> \<le> maxTime" "\<bar>e\<bar> \<le> maxTime"
    using assms by (auto simp: valid_date_iff)
  show ?thesis
    by (cases "apt_description a")
       (simp_all add: revive_def obj_of_def nullish_def se new_Date_string_def
          parse_utc_toISOString b TimeClip_def)
qed

lemma map_throw_map_Inr:
  "(\<And>x. x \<in> set xs \<Longrightarrow> f (h x) = Inr (g x)) \<Longrightarrow> map_throw f (map h xs) = Inr (map g xs)"
  by (induction xs) simp_all

lemma deserialize_serialize_obj_of:
  assumes "\<And>a. a \<in> set apts \<Longrightarrow> valid_date (apt_start a) \<and> valid_date (apt_end a)"
  shows "deserialize other (serialize (map obj_of apts)) = Inr (map obj_of apts)"
proof -
  have "map_throw (revive other) (map (\<lambda>a. toJSON (obj_of a)) apts) = Inr (map obj_of apts)"
    using assms by (intro map_throw_map_Inr revive_toJSON_obj_of) simp_all
  then show ?thesis
    by (simp add: deserialize_def serialize_def JSON_stringify_def comp_def)
qed

lemma getAppointments_serialize_obj_of:
  assumes "\<And>a. a \<in> set apts \<Longrightarrow> valid_date (apt_start a) \<and> valid_date (apt_end a)"
  shows "getAppointments other (Some (serialize (map obj_of apts))) = map obj_of apts"
  using deserialize_serialize_obj_of [OF assms] by (simp add: getAppointments_def)

subsection \<open>The typed reading is faithful\<close>

lemma type_name_inj: "type_name t = type_name u \<Longrightarrow> t = u"
  by (cases t; cases u) simp_all

lemma obj_of_inj: "obj_of a = obj_of b \<Longrightarrow> a = b"
  by (cases a; cases b) (auto simp: obj_of_def split: option.splits dest: type_name_inj)

subsection \<open>The example data\<close>

lemma example_store_loads:
  "getAppointments utc_engine example_store = map obj_of [open_slot, later_meeting]"
  by code_simp

lemma review_form_times:
  "startDateTime utc_engine (review_form 30) = Date 1717495200000"
  "endDateTime utc_engine (review_form 30) = Date 1717497000000"
  "startDateTime utc_engine (review_form 45) = Date 1717495200000"
  "endDateTime utc_engine (review_form 45) = Date 1717497900000"
  "startDateTime utc_engine (review_form (- 30)) = Date 1717495200000"
  "endDateTime utc_engine (review_form (- 30)) = Date 1717493400000"
  by code_simp+

lemma review_form_fields:
  "form_date (review_form n) \<noteq> []" "form_time (review_form n) \<noteq> []"
  "form_title (review_form n) \<noteq> []" "form_name (review_form n) \<noteq> []"
  "form_duration (review_form n) = n"
  by (simp_all add: review_form_def)

subsection \<open>The round trip\<close>

text \<open>
  C8. A collection of appointments whose start and end are valid dates is read back
  from its serialization as the same objects: the same id, title, start, end,
  requesterName and type (and description), the time values to the millisecond.
\<close>

theorem serialize_deserialize_round_trip:
  assumes "\<forall>a\<in>set apts. valid_date (apt_start a) \<and> valid_date (apt_end a)"
  shows "deserialize other (serialize (map obj_of apts)) = Inr (map obj_of apts)"
  using assms by (intro deserialize_serialize_obj_of) simp

theorem serialize_deserialize_round_trip_witness:
  "valid_date (apt_start open_slot) \<and> valid_date (apt_end open_slot)
   \<and> valid_date (apt_start later_meeting) \<and> valid_date (apt_end later_meeting)
   \<and> deserialize utc_engine (serialize (map obj_of [open_slot, later_meeting]))
       = Inr (map obj_of [open_slot, later_meeting])"
proof -
  have h: "\<forall>a\<in>set [open_slot, later_meeting]. valid_date (apt_start a) \<and> valid_date (apt_end a)"
    by (simp add: open_slot_def later_meeting_def valid_date_def maxTime_def)
  from serialize_deserialize_round_trip [OF h, of utc_engine] h show ?thesis by simp
qed

section \<open>The read path\<close>

lemma map_throw_length: "map_throw f xs = Inr ys \<Longrightarrow> length ys = length xs"
  by (induction xs arbitrary: ys) (auto split: sum.splits)

lemma map_throw_Inl_iff: "(\<exists>e. map_throw f xs = Inl e) = (\<exists>x\<in>set xs. \<exists>e. f x = Inl e)"
  by (induction xs) (auto split: sum.splits)

lemma map_throw_set:
  "map_throw f xs = Inr ys \<Longrightarrow> y \<in> set ys \<Longrightarrow> \<exists>x\<in>set xs. f x = Inr y"
  by (induction xs arbitrary: ys) (auto split: sum.splits)

lemma map_of_set_prop:
  "map_of (set_prop ps k v) k' = (if k' = k then Some v else map_of ps k')"
  by (induction ps) auto

lemma new_Date_primitive: "primitive v \<Longrightarrow> \<exists>d. new_Date other v = Inr d"
  by (cases v) simp_all

lemma new_Date_throws: "toString_throws v \<Longrightarrow> new_Date other v = Inl TypeError"
  by (cases v) simp_all

lemma revive_nullish: "nullish x \<Longrightarrow> revive other x = Inl TypeError"
  by (simp add: revive_def)

lemma revive_throws:
  "toString_throws (get_prop x ''start'') \<or> toString_throws (get_prop x ''end'')
   \<Longrightarrow> \<exists>e. revive other x = Inl e"
  by (auto simp: revive_def new_Date_throws split: sum.splits)

lemma revive_primitive:
  assumes "\<not> nullish x" "primitive (get_prop x ''start'')" "primitive (get_prop x ''end'')"
  shows "\<exists>y. revive other x = Inr y"
proof -
  obtain s e where "new_Date other (get_prop x ''start'') = Inr s"
    "new_Date other (get_prop x ''end'') = Inr e"
    using new_Date_primitive assms(2,3) by blast
  then show ?thesis using assms(1) by (simp add: revive_def)
qed

lemma revive_dates:
  assumes "revive other x = Inr y"
  shows "\<exists>s e. get_prop y ''start'' = JDate s \<and> get_prop y ''end'' = JDate e"
  using assms by (auto simp: revive_def map_of_set_prop split: if_splits sum.splits)

lemma getAppointments_dates:
  assumes "y \<in> set (getAppointments other st)"
  shows "\<exists>s e. get_prop y ''start'' = JDate s \<and> get_prop y ''end'' = JDate e"
proof -
  from assms obtain p ys where "deserialize other p = Inr ys" "y \<in> set ys"
    by (cases st; cases "deserialize other (the st)") (auto simp: getAppointments_def)
  then obtain xs where "map_throw (revive other) xs = Inr ys"
    by (auto simp: deserialize_def split: sum.splits jsval.splits)
  with \<open>y \<in> set ys\<close> obtain x where "revive other x = Inr y"
    using map_throw_set by fastforce
  then show ?thesis by (rule revive_dates)
qed

text \<open>
  C9, as amended. For every stored payload the read path returns a collection and
  never throws. The collection is empty when nothing is stored, when the payload is
  not JSON text, when its value is not an array, and when the array holds \<^verbatim>\<open>null\<close> or an
  element whose \<^verbatim>\<open>start\<close> or \<^verbatim>\<open>end\<close> cannot be converted to a string (an object with an
  own \<^verbatim>\<open>toString\<close>, or an array that holds one). An array whose elements are not
  \<^verbatim>\<open>null\<close> and have no array or object as \<^verbatim>\<open>start\<close> or \<^verbatim>\<open>end\<close> is loaded as one record per
  element, whatever else the elements are.
\<close>

theorem getAppointments_fails_open:
  "getAppointments other None = []
   \<and> getAppointments other (Some Malformed) = []
   \<and> ((\<forall>xs. v \<noteq> JArray xs) \<longrightarrow> getAppointments other (Some (JSONText v)) = [])
   \<and> ((\<exists>x\<in>set xs. nullish x \<or> toString_throws (get_prop x ''start'')
                      \<or> toString_throws (get_prop x ''end''))
        \<longrightarrow> getAppointments other (Some (JSONText (JArray xs))) = [])
   \<and> ((\<forall>x\<in>set xs. \<not> nullish x \<and> primitive (get_prop x ''start'')
                      \<and> primitive (get_prop x ''end''))
        \<longrightarrow> length (getAppointments other (Some (JSONText (JArray xs)))) = length xs)"
proof -
  have a: "getAppointments other (Some (JSONText v)) = []" if "\<forall>xs. v \<noteq> JArray xs"
    using that by (cases v) (simp_all add: getAppointments_def deserialize_def)
  have b: "getAppointments other (Some (JSONText (JArray xs))) = []"
    if "\<exists>x\<in>set xs. nullish x \<or> toString_throws (get_prop x ''start'')
                      \<or> toString_throws (get_prop x ''end'')"
  proof -
    from that obtain x where "x \<in> set xs" "\<exists>e. revive other x = Inl e"
      using revive_nullish revive_throws by blast
    then have "\<exists>e. map_throw (revive other) xs = Inl e"
      using map_throw_Inl_iff [of "revive other" xs] by blast
    then show ?thesis by (auto simp: getAppointments_def deserialize_def)
  qed
  have c: "length (getAppointments other (Some (JSONText (JArray xs)))) = length xs"
    if "\<forall>x\<in>set xs. \<not> nullish x \<and> primitive (get_prop x ''start'')
                      \<and> primitive (get_prop x ''end'')"
  proof (cases "map_throw (revive other) xs")
    case (Inl e)
    then obtain x where "x \<in> set xs" "\<exists>e. revive other x = Inl e"
      using map_throw_Inl_iff [of "revive other" xs] by blast
    moreover have "\<exists>y. revive other x = Inr y"
      using that \<open>x \<in> set xs\<close> by (intro revive_primitive) simp_all
    ultimately show ?thesis by auto
  next
    case (Inr ys)
    then show ?thesis
      using map_throw_length [OF Inr] by (simp add: getAppointments_def deserialize_def)
  qed
  show ?thesis
    using a b c by (simp add: getAppointments_def deserialize_def)
qed

theorem getAppointments_fails_open_witness:
  "getAppointments utc_engine (Some (JSONText (JObject []))) = []
   \<and> nullish JNull
   \<and> getAppointments utc_engine (Some (JSONText (JArray [JObject [], JNull]))) = []
   \<and> toString_throws (get_prop (JObject [(''start'', JObject [(''toString'', JNull)])]) ''start'')
   \<and> getAppointments utc_engine
        (Some (JSONText (JArray [JObject [(''start'', JObject [(''toString'', JNull)])]]))) = []
   \<and> \<not> nullish (JNumber 1) \<and> primitive (get_prop (JNumber 1) ''start'')
   \<and> \<not> nullish (JObject [(''start'', JString ''soon'')])
   \<and> primitive (get_prop (JObject [(''start'', JString ''soon'')]) ''start'')
   \<and> length (getAppointments utc_engine
        (Some (JSONText (JArray [JNumber 1, JObject [(''start'', JString ''soon'')]])))) = 2"
proof -
  have n: "nullish JNull" "\<not> nullish (JNumber 1)"
    "\<not> nullish (JObject [(''start'', JString ''soon'')])"
    by (simp_all add: nullish_def)
  have t: "toString_throws (get_prop (JObject [(''start'', JObject [(''toString'', JNull)])])
      ''start'')"
    by simp
  have p: "primitive (get_prop (JNumber 1) ''start'')"
    "primitive (get_prop (JObject [(''start'', JString ''soon'')]) ''start'')"
    by simp_all
  from getAppointments_fails_open [of utc_engine "JObject []" "[JObject [], JNull]"] n
  have a: "getAppointments utc_engine (Some (JSONText (JObject []))) = []"
    "getAppointments utc_engine (Some (JSONText (JArray [JObject [], JNull]))) = []"
    by simp_all
  from getAppointments_fails_open
    [of utc_engine "JObject []" "[JObject [(''start'', JObject [(''toString'', JNull)])]]"]
  have b: "getAppointments utc_engine
        (Some (JSONText (JArray [JObject [(''start'', JObject [(''toString'', JNull)])]]))) = []"
    by simp
  from getAppointments_fails_open
    [of utc_engine "JObject []" "[JNumber 1, JObject [(''start'', JString ''soon'')]]"] n
  have c: "length (getAppointments utc_engine
      (Some (JSONText (JArray [JNumber 1, JObject [(''start'', JString ''soon'')]])))) = 2"
    by simp
  show ?thesis using n t p a b c by simp
qed

text \<open>
  The payload \<^verbatim>\<open>[{}]\<close> is JSON text and the serialization of no appointments; it loads
  as one record with two invalid dates.
\<close>

lemma empty_object_is_no_appointment:
  "serialize (map obj_of apts) \<noteq> JSONText (JArray [JObject []])"
  by (cases apts) (auto simp: serialize_def JSON_stringify_def obj_of_def)

text \<open>
  Against C9 as stated: a payload that is no serialized appointment collection, and a
  collection loaded from it that is not empty.
\<close>

theorem array_of_empty_object_loads_a_record:
  "getAppointments utc_engine (Some (JSONText (JArray [JObject []])))
     = [JObject [(''start'', JDate Invalid_Date), (''end'', JDate Invalid_Date)]]"
  by (simp add: getAppointments_def deserialize_def revive_def nullish_def)

section \<open>The store on typed appointments\<close>

lemma findIndex_ge: "- 1 \<le> findIndex P xs"
  by (induction xs) (auto simp: Let_def)

lemma findIndex_neg_iff: "(findIndex P xs < 0) = (\<forall>x\<in>set xs. \<not> P x)"
  using findIndex_ge [of P] by (induction xs) (auto simp: Let_def)

lemma findIndex_first:
  assumes "0 \<le> findIndex P xs"
  shows "nat (findIndex P xs) < length xs \<and> P (xs ! nat (findIndex P xs))
         \<and> (\<forall>j < nat (findIndex P xs). \<not> P (xs ! j))"
  using assms
proof (induction xs)
  case Nil
  then show ?case by simp
next
  case (Cons x xs)
  show ?case
  proof (cases "P x")
    case True
    then show ?thesis by simp
  next
    case False
    with Cons.prems have i: "0 \<le> findIndex P xs"
      by (simp add: Let_def split: if_splits)
    then have n: "nat (findIndex P xs + 1) = Suc (nat (findIndex P xs))" by simp
    from Cons.IH [OF i] False i show ?thesis
      by (auto simp: Let_def n nth_Cons split: nat.splits)
  qed
qed

lemma findIndex_map: "findIndex P (map f xs) = findIndex (\<lambda>x. P (f x)) xs"
  by (induction xs) (simp_all add: Let_def)

lemma as_Date_JDate [simp]: "as_Date (JDate d) = Inr d"
  by (simp add: as_Date_def)

lemma collides_obj_of:
  "collides s e ex (obj_of a) =
     Inr (\<not> (truthy ex \<and> strict_eq (JString (apt_id a)) ex)
          \<and> overlaps s e (apt_start a) (apt_end a))"
  by (simp add: collides_def)

lemma some_throw_map_Inr:
  "(\<And>x. x \<in> set xs \<Longrightarrow> f (h x) = Inr (g x))
   \<Longrightarrow> some_throw f (map h xs) = Inr (\<exists>x\<in>set xs. g x)"
  by (induction xs) auto

lemma checkAvailability_obj_of:
  assumes "getAppointments other st = map obj_of apts"
  shows "checkAvailability other st s e ex =
     Inr (\<not> (\<exists>a\<in>set apts. \<not> (truthy ex \<and> strict_eq (JString (apt_id a)) ex)
                          \<and> overlaps s e (apt_start a) (apt_end a)))"
proof -
  have "some_throw (collides s e ex) (map obj_of apts) =
      Inr (\<exists>a\<in>set apts. \<not> (truthy ex \<and> strict_eq (JString (apt_id a)) ex)
             \<and> overlaps s e (apt_start a) (apt_end a))"
    by (rule some_throw_map_Inr) (simp add: collides_obj_of)
  then show ?thesis
    unfolding checkAvailability_def assms Let_def by simp
qed

lemma some_throw_total:
  "(\<And>x. x \<in> set xs \<Longrightarrow> \<exists>b. f x = Inr b) \<Longrightarrow> \<exists>b. some_throw f xs = Inr b"
proof (induction xs)
  case Nil
  show ?case by (rule exI [of _ False]) simp
next
  case (Cons x xs)
  from Cons.prems obtain b where "f x = Inr b" by auto
  moreover from Cons obtain c where "some_throw f xs = Inr c" by auto
  ultimately show ?case by (cases b) auto
qed

lemma checkAvailability_total: "\<exists>b. checkAvailability other st s e ex = Inr b"
proof -
  have "\<exists>b. collides s e ex y = Inr b" if "y \<in> set (getAppointments other st)" for y
    using getAppointments_dates [OF that] by (auto simp: collides_def)
  then obtain b where "some_throw (collides s e ex) (getAppointments other st) = Inr b"
    using some_throw_total by blast
  then show ?thesis by (simp add: checkAvailability_def)
qed

lemma saveAppointment_obj_of:
  fixes a :: Appointment
  assumes "getAppointments other st = map obj_of apts"
  defines "i \<equiv> findIndex (\<lambda>b. apt_id b = apt_id a) apts"
  defines "apts' \<equiv> (if 0 \<le> i then apts[nat i := a] else apts @ [a])"
  shows "saveAppointment other st (obj_of a) = (Some (serialize (map obj_of apts')), map obj_of apts')"
proof -
  have "findIndex (\<lambda>x. strict_eq (get_prop x ''id'') (get_prop (obj_of a) ''id'')) (map obj_of apts) = i"
    by (simp add: findIndex_map i_def)
  then show ?thesis
    by (simp add: saveAppointment_def assms(1) Let_def apts'_def map_update)
qed

subsection \<open>saveAppointment\<close>

text \<open>
  C10. On any stored collection, \<open>saveAppointment\<close> writes and returns a collection
  \<open>apts'\<close>: when a stored record has the id of the appointment, \<open>apts'\<close> has the same
  length, the appointment stands at the place of the first such record, and every
  other place is unchanged; when none has, \<open>apts'\<close> is the stored collection with the
  appointment appended. Read back, the storage gives \<open>apts'\<close> when its dates are valid.
\<close>

theorem saveAppointment_replaces_or_appends:
  assumes "getAppointments other st = map obj_of apts"
  shows "\<exists>apts'.
      saveAppointment other st (obj_of a)
        = (Some (serialize (map obj_of apts')), map obj_of apts')
      \<and> (if apt_id a \<in> apt_id ` set apts
         then length apts' = length apts
              \<and> (\<exists>i<length apts. apt_id (apts ! i) = apt_id a \<and> apts' ! i = a
                    \<and> (\<forall>j<length apts. j \<noteq> i \<longrightarrow> apts' ! j = apts ! j))
         else apts' = apts @ [a])
      \<and> ((\<forall>b\<in>set apts'. valid_date (apt_start b) \<and> valid_date (apt_end b))
          \<longrightarrow> getAppointments other (Some (serialize (map obj_of apts'))) = map obj_of apts')"
proof -
  define i where "i = findIndex (\<lambda>b. apt_id b = apt_id a) apts"
  define apts' where "apts' = (if 0 \<le> i then apts[nat i := a] else apts @ [a])"
  have save: "saveAppointment other st (obj_of a)
      = (Some (serialize (map obj_of apts')), map obj_of apts')"
    using saveAppointment_obj_of [OF assms, of a] by (simp add: apts'_def i_def)
  have shape: "if apt_id a \<in> apt_id ` set apts
         then length apts' = length apts
              \<and> (\<exists>i<length apts. apt_id (apts ! i) = apt_id a \<and> apts' ! i = a
                    \<and> (\<forall>j<length apts. j \<noteq> i \<longrightarrow> apts' ! j = apts ! j))
         else apts' = apts @ [a]"
  proof (cases "apt_id a \<in> apt_id ` set apts")
    case True
    then have "\<not> (\<forall>x\<in>set apts. apt_id x \<noteq> apt_id a)" by auto
    then have "\<not> i < 0" using findIndex_neg_iff [of "\<lambda>b. apt_id b = apt_id a" apts]
      by (simp add: i_def)
    then have i0: "0 \<le> i" by simp
    from findIndex_first [OF i0 [unfolded i_def], folded i_def]
    have i: "nat i < length apts" "apt_id (apts ! nat i) = apt_id a" by simp_all
    have "apts' = apts[nat i := a]" using i0 by (simp add: apts'_def)
    then show ?thesis using True i by (auto intro!: exI [of _ "nat i"])
  next
    case False
    then have "\<forall>x\<in>set apts. apt_id x \<noteq> apt_id a" by (metis imageI)
    then have "i < 0" using findIndex_neg_iff [of "\<lambda>b. apt_id b = apt_id a" apts]
      by (simp add: i_def)
    then show ?thesis using False by (simp add: apts'_def)
  qed
  have reread: "(\<forall>b\<in>set apts'. valid_date (apt_start b) \<and> valid_date (apt_end b))
      \<longrightarrow> getAppointments other (Some (serialize (map obj_of apts'))) = map obj_of apts'"
    by (simp add: getAppointments_serialize_obj_of)
  show ?thesis using save shape reread by blast
qed

theorem saveAppointment_replaces_or_appends_witness:
  "getAppointments utc_engine example_store = map obj_of [open_slot, later_meeting]
   \<and> (\<exists>apts'. saveAppointment utc_engine example_store
          (obj_of (as_appointment ''a1'' Meeting (Date 1717495200000) (Date 1717497000000)
             (review_form 30)))
          = (Some (serialize (map obj_of apts')), map obj_of apts')
        \<and> apts' = [as_appointment ''a1'' Meeting (Date 1717495200000) (Date 1717497000000)
             (review_form 30), later_meeting])
   \<and> (\<exists>apts'. saveAppointment utc_engine example_store (obj_of clash_meeting)
          = (Some (serialize (map obj_of apts')), map obj_of apts')
        \<and> apts' = [open_slot, later_meeting, clash_meeting])"
proof -
  define booked where "booked = as_appointment ''a1'' Meeting (Date 1717495200000)
    (Date 1717497000000) (review_form 30)"
  have ids: "apt_id booked = ''a1''" "apt_id open_slot = ''a1''" "apt_id later_meeting = ''m2''"
    "apt_id clash_meeting = ''m3''"
    by (simp_all add: booked_def as_appointment_def open_slot_def later_meeting_def
        clash_meeting_def)
  from saveAppointment_replaces_or_appends [OF example_store_loads, of booked]
  obtain apts' where s: "saveAppointment utc_engine example_store (obj_of booked)
          = (Some (serialize (map obj_of apts')), map obj_of apts')"
    and c: "if apt_id booked \<in> apt_id ` set [open_slot, later_meeting]
         then length apts' = length [open_slot, later_meeting]
              \<and> (\<exists>i<length [open_slot, later_meeting].
                    apt_id ([open_slot, later_meeting] ! i) = apt_id booked \<and> apts' ! i = booked
                    \<and> (\<forall>j<length [open_slot, later_meeting].
                          j \<noteq> i \<longrightarrow> apts' ! j = [open_slot, later_meeting] ! j))
         else apts' = [open_slot, later_meeting] @ [booked]"
    by blast
  have "apt_id booked \<in> apt_id ` set [open_slot, later_meeting]" by (simp add: ids)
  with c have l: "length apts' = 2"
    and i: "\<exists>i<2. apt_id ([open_slot, later_meeting] ! i) = ''a1'' \<and> apts' ! i = booked
                    \<and> (\<forall>j<2. j \<noteq> i \<longrightarrow> apts' ! j = [open_slot, later_meeting] ! j)"
    by (simp_all add: ids numeral_2_eq_2)
  from i obtain k where k: "k < 2" "apt_id ([open_slot, later_meeting] ! k) = ''a1''"
    "apts' ! k = booked" "\<forall>j<2. j \<noteq> k \<longrightarrow> apts' ! j = [open_slot, later_meeting] ! j"
    by blast
  have "k = 0" using k(1,2) by (cases k) (auto simp: ids)
  then have "apts' ! 0 = booked" "apts' ! 1 = later_meeting" using k(3,4) by auto
  then have "apts' = [booked, later_meeting]"
    using l by (intro nth_equalityI) (auto simp: less_Suc_eq numeral_2_eq_2)
  then have a: "\<exists>apts'. saveAppointment utc_engine example_store (obj_of booked)
          = (Some (serialize (map obj_of apts')), map obj_of apts')
        \<and> apts' = [booked, later_meeting]"
    using s by blast
  from saveAppointment_replaces_or_appends [OF example_store_loads, of clash_meeting]
  obtain apts2 where s2: "saveAppointment utc_engine example_store (obj_of clash_meeting)
          = (Some (serialize (map obj_of apts2)), map obj_of apts2)"
    and c2: "if apt_id clash_meeting \<in> apt_id ` set [open_slot, later_meeting]
         then length apts2 = length [open_slot, later_meeting]
              \<and> (\<exists>i<length [open_slot, later_meeting].
                    apt_id ([open_slot, later_meeting] ! i) = apt_id clash_meeting
                    \<and> apts2 ! i = clash_meeting
                    \<and> (\<forall>j<length [open_slot, later_meeting].
                          j \<noteq> i \<longrightarrow> apts2 ! j = [open_slot, later_meeting] ! j))
         else apts2 = [open_slot, later_meeting] @ [clash_meeting]"
    by blast
  have "apt_id clash_meeting \<notin> apt_id ` set [open_slot, later_meeting]" by (simp add: ids)
  with c2 have "apts2 = [open_slot, later_meeting, clash_meeting]" by simp
  with s2 have b: "\<exists>apts'. saveAppointment utc_engine example_store (obj_of clash_meeting)
          = (Some (serialize (map obj_of apts')), map obj_of apts')
        \<and> apts' = [open_slot, later_meeting, clash_meeting]"
    by blast
  show ?thesis using example_store_loads a b unfolding booked_def by blast
qed

section \<open>The handler on typed appointments\<close>

lemma truthy_obj_of [simp]: "truthy (obj_of a)" "\<not> nullish (obj_of a)"
  by (simp_all add: obj_of_def nullish_def)

lemma opt_prop_obj_of [simp]: "opt_prop (obj_of a) k = get_prop (obj_of a) k"
  by (simp add: opt_prop_def)

lemma opt_prop_nullish [simp]: "nullish ex \<Longrightarrow> opt_prop ex k = JUndefined"
  by (simp add: opt_prop_def)

lemma truthy_nullish [simp]: "nullish ex \<Longrightarrow> \<not> truthy ex"
  by (auto simp: nullish_def)

lemma new_type_existing: "new_type r (obj_of a) = ''meeting''"
  by (simp add: new_type_def)

lemma new_type_new:
  "nullish ex \<Longrightarrow> new_type r ex = (if r = Owner then ''availability'' else ''meeting'')"
  by (simp add: new_type_def)

lemma new_appointment_existing:
  "new_appointment other uuid r (obj_of a) f =
     obj_of (as_appointment (apt_id a) Meeting (startDateTime other f) (endDateTime other f) f)"
  by (simp add: new_appointment_def new_type_existing)
     (simp add: obj_of_def as_appointment_def)

lemma new_appointment_new:
  "nullish ex \<Longrightarrow> new_appointment other uuid r ex f =
     obj_of (as_appointment uuid (if r = Owner then Availability else Meeting)
               (startDateTime other f) (endDateTime other f) f)"
  by (simp add: new_appointment_def new_type_new)
     (simp add: obj_of_def as_appointment_def)

lemma handleSubmit_Saved:
  "fst (handleSubmit other now uuid r ex f st) = Saved \<Longrightarrow>
   snd (handleSubmit other now uuid r ex f st)
     = fst (saveAppointment other st (new_appointment other uuid r ex f))"
  by (auto simp: handleSubmit_def split: sum.splits if_splits)

lemma handleSubmit_not_Saved:
  "fst (handleSubmit other now uuid r ex f st) \<noteq> Saved \<Longrightarrow>
   snd (handleSubmit other now uuid r ex f st) = st"
  by (auto simp: handleSubmit_def split: sum.splits if_splits)

lemma handleSubmit_obj_of:
  fixes f :: BookingForm
  assumes "getAppointments other st = map obj_of apts"
  defines "s \<equiv> startDateTime other f" and "e \<equiv> endDateTime other f"
  shows "handleSubmit other now uuid r ex f st =
     (if form_date f = [] \<or> form_time f = [] \<or> form_title f = [] \<or> form_name f = []
      then (Rejected AllFieldsRequired, st)
      else if num_lt (getTime s) (getTime now) then (Rejected PastSlot, st)
      else if \<exists>a\<in>set apts. \<not> (truthy (opt_prop ex ''id'')
                                  \<and> strict_eq (JString (apt_id a)) (opt_prop ex ''id''))
                              \<and> overlaps s e (apt_start a) (apt_end a)
      then (Rejected OverlapError, st)
      else (Saved, fst (saveAppointment other st (new_appointment other uuid r ex f))))"
  unfolding handleSubmit_def s_def e_def
  by (simp add: checkAvailability_obj_of [OF assms(1)])

subsection \<open>Where the overlap is checked\<close>

text \<open>
  C5, as amended. \<open>saveAppointment\<close> validates nothing: it writes the collection with
  the appointment in it, whatever the appointment overlaps. The check is made before
  it, by the handler: a submission is saved only when \<open>checkAvailability\<close> reported
  free, and a submission that is not saved leaves the storage as it was. The overlap
  error is a fixed message and names no id.
\<close>

lemma saveAppointment_persists:
  "fst (saveAppointment other st a) = Some (serialize (snd (saveAppointment other st a)))"
  "a \<in> set (snd (saveAppointment other st a))"
proof -
  define cur where "cur = getAppointments other st"
  define i where "i = findIndex (\<lambda>x. strict_eq (get_prop x ''id'') (get_prop a ''id'')) cur"
  have u: "snd (saveAppointment other st a) = (if 0 \<le> i then cur[nat i := a] else cur @ [a])"
    by (simp add: saveAppointment_def Let_def cur_def i_def)
  show "fst (saveAppointment other st a) = Some (serialize (snd (saveAppointment other st a)))"
    by (simp add: saveAppointment_def Let_def)
  show "a \<in> set (snd (saveAppointment other st a))"
  proof (cases "0 \<le> i")
    case True
    from findIndex_first [OF True [unfolded i_def], folded i_def]
    have "nat i < length cur" by simp
    then show ?thesis using True u by (simp add: set_update_memI)
  next
    case False
    then show ?thesis using u by simp
  qed
qed

theorem saveAppointment_does_not_validate:
  "fst (saveAppointment other st a) = Some (serialize (snd (saveAppointment other st a)))
   \<and> a \<in> set (snd (saveAppointment other st a))
   \<and> (fst (handleSubmit other now uuid r ex f st) = Saved \<longrightarrow>
        checkAvailability other st (startDateTime other f) (endDateTime other f)
          (opt_prop ex ''id'') = Inr True
        \<and> snd (handleSubmit other now uuid r ex f st)
            = fst (saveAppointment other st (new_appointment other uuid r ex f)))
   \<and> (fst (handleSubmit other now uuid r ex f st) \<noteq> Saved \<longrightarrow>
        snd (handleSubmit other now uuid r ex f st) = st)"
proof -
  have "checkAvailability other st (startDateTime other f) (endDateTime other f)
          (opt_prop ex ''id'') = Inr True"
    if "fst (handleSubmit other now uuid r ex f st) = Saved"
    using that by (auto simp: handleSubmit_def split: sum.splits if_splits)
  then show ?thesis
    using saveAppointment_persists handleSubmit_Saved handleSubmit_not_Saved
    by blast
qed

theorem saveAppointment_does_not_validate_witness:
  "fst (saveAppointment utc_engine example_store (obj_of clash_meeting))
     = Some (serialize (snd (saveAppointment utc_engine example_store (obj_of clash_meeting))))
   \<and> obj_of clash_meeting \<in> set (snd (saveAppointment utc_engine example_store (obj_of clash_meeting)))
   \<and> fst (handleSubmit utc_engine monday ''u1'' Colleague (obj_of open_slot) (review_form 30)
            example_store) = Saved
   \<and> checkAvailability utc_engine example_store (startDateTime utc_engine (review_form 30))
        (endDateTime utc_engine (review_form 30)) (opt_prop (obj_of open_slot) ''id'') = Inr True
   \<and> fst (handleSubmit utc_engine monday ''u1'' Colleague (obj_of open_slot) (review_form 45)
            example_store) \<noteq> Saved
   \<and> snd (handleSubmit utc_engine monday ''u1'' Colleague (obj_of open_slot) (review_form 45)
            example_store) = example_store"
proof -
  have saved: "fst (handleSubmit utc_engine monday ''u1'' Colleague (obj_of open_slot)
      (review_form 30) example_store) = Saved"
    by code_simp
  have blocked: "fst (handleSubmit utc_engine monday ''u1'' Colleague (obj_of open_slot)
      (review_form 45) example_store) \<noteq> Saved"
    by code_simp
  from saveAppointment_does_not_validate
    [of utc_engine example_store "obj_of clash_meeting" monday "''u1''" Colleague
        "obj_of open_slot" "review_form 30"] saved
  have a: "fst (saveAppointment utc_engine example_store (obj_of clash_meeting))
     = Some (serialize (snd (saveAppointment utc_engine example_store (obj_of clash_meeting))))"
    "obj_of clash_meeting \<in> set (snd (saveAppointment utc_engine example_store (obj_of clash_meeting)))"
    "checkAvailability utc_engine example_store (startDateTime utc_engine (review_form 30))
        (endDateTime utc_engine (review_form 30)) (opt_prop (obj_of open_slot) ''id'') = Inr True"
    by blast+
  from saveAppointment_does_not_validate
    [of utc_engine example_store "obj_of clash_meeting" monday "''u1''" Colleague
        "obj_of open_slot" "review_form 45"] blocked
  have b: "snd (handleSubmit utc_engine monday ''u1'' Colleague (obj_of open_slot) (review_form 45)
            example_store) = example_store"
    by blast
  show ?thesis using saved blocked a b by blast
qed

text \<open>
  Against C5 as stated: the store holds a meeting from 10:30 to 11:00, and a meeting
  with another id from 10:45 to 11:15 is written beside it.
\<close>

theorem saveAppointment_persists_overlap:
  "saveAppointment utc_engine (Some (serialize [obj_of later_meeting])) (obj_of clash_meeting)
     = (Some (serialize [obj_of later_meeting, obj_of clash_meeting]),
        [obj_of later_meeting, obj_of clash_meeting])
   \<and> apt_id clash_meeting \<noteq> apt_id later_meeting
   \<and> overlaps (apt_start clash_meeting) (apt_end clash_meeting)
        (apt_start later_meeting) (apt_end later_meeting)"
  by code_simp

subsection \<open>Booking against a targeted record\<close>

text \<open>
  C1, as amended. Against any stored appointments, when a booking targets a record
  \<open>A\<close> whose id is not the empty string (that id is the excluded id): the availability
  check reports free exactly when no record with another id overlaps the candidate
  range; and a submission that has all its fields and does not start in the past is
  saved when no record with another id overlaps, and is rejected with the overlap
  error, the storage unchanged, when one does. Overlap with the targeted record itself
  plays no part.
\<close>

theorem booking_ignores_targeted_record:
  assumes "getAppointments other st = map obj_of apts"
    and "apt_id A \<noteq> []"
    and "form_date f \<noteq> []" "form_time f \<noteq> []" "form_title f \<noteq> []" "form_name f \<noteq> []"
    and "\<not> num_lt (getTime (startDateTime other f)) (getTime now)"
  shows "checkAvailability other st (startDateTime other f) (endDateTime other f)
           (opt_prop (obj_of A) ''id'')
         = Inr (\<not> (\<exists>a\<in>set apts. apt_id a \<noteq> apt_id A
                    \<and> overlaps (startDateTime other f) (endDateTime other f)
                         (apt_start a) (apt_end a)))
    \<and> handleSubmit other now uuid r (obj_of A) f st
       = (if \<exists>a\<in>set apts. apt_id a \<noteq> apt_id A
                \<and> overlaps (startDateTime other f) (endDateTime other f)
                     (apt_start a) (apt_end a)
          then (Rejected OverlapError, st)
          else (Saved, fst (saveAppointment other st
                             (new_appointment other uuid r (obj_of A) f))))"
  using assms(2-)
  by (simp add: handleSubmit_obj_of [OF assms(1)] checkAvailability_obj_of [OF assms(1)])

theorem booking_ignores_targeted_record_witness:
  "getAppointments utc_engine example_store = map obj_of [open_slot, later_meeting]
   \<and> apt_id open_slot \<noteq> []
   \<and> \<not> num_lt (getTime (startDateTime utc_engine (review_form 30))) (getTime monday)
   \<and> checkAvailability utc_engine example_store (Date 1717495200000) (Date 1717497000000)
        (opt_prop (obj_of open_slot) ''id'') = Inr True
   \<and> fst (handleSubmit utc_engine monday ''u1'' Colleague (obj_of open_slot) (review_form 30)
            example_store) = Saved
   \<and> handleSubmit utc_engine monday ''u1'' Colleague (obj_of open_slot) (review_form 45)
        example_store = (Rejected OverlapError, example_store)"
proof -
  have id: "apt_id open_slot \<noteq> []" by (simp add: open_slot_def)
  have now: "\<not> num_lt (getTime (startDateTime utc_engine (review_form n))) (getTime monday)"
    if "n = 30 \<or> n = 45" for n
    using that by (auto simp: review_form_times monday_def)
  note t = booking_ignores_targeted_record [OF example_store_loads id review_form_fields(1-4)]
  have free: "\<not> (\<exists>a\<in>set [open_slot, later_meeting]. apt_id a \<noteq> apt_id open_slot
        \<and> overlaps (Date 1717495200000) (Date 1717497000000) (apt_start a) (apt_end a))"
    by (simp add: open_slot_def later_meeting_def overlaps_def num_gt_def)
  have taken: "\<exists>a\<in>set [open_slot, later_meeting]. apt_id a \<noteq> apt_id open_slot
        \<and> overlaps (Date 1717495200000) (Date 1717497900000) (apt_start a) (apt_end a)"
    by (simp add: open_slot_def later_meeting_def overlaps_def num_gt_def)
  from t [of 30 monday "''u1''" Colleague] free now [of 30]
  have a: "checkAvailability utc_engine example_store (Date 1717495200000) (Date 1717497000000)
        (opt_prop (obj_of open_slot) ''id'') = Inr True"
    "fst (handleSubmit utc_engine monday ''u1'' Colleague (obj_of open_slot) (review_form 30)
            example_store) = Saved"
    by (simp_all add: review_form_times)
  from t [of 45 monday "''u1''" Colleague] taken now [of 45]
  have b: "handleSubmit utc_engine monday ''u1'' Colleague (obj_of open_slot) (review_form 45)
        example_store = (Rejected OverlapError, example_store)"
    by (simp add: review_form_times)
  show ?thesis using example_store_loads id now [of 30] a b by simp
qed

text \<open>
  Against C1 as stated: the targeted slot is stored under the empty string as its id.
  The guard \<^verbatim>\<open>excludeId && apt.id === excludeId\<close> is false on the empty string, so the
  slot is tested against the booking of itself: no record with another id overlaps, and
  the check reports taken and the booking is rejected.
\<close>

theorem empty_id_target_blocks_itself:
  "opt_prop (obj_of unnamed_slot) ''id'' = JString []
   \<and> filter (\<lambda>a. apt_id a \<noteq> apt_id unnamed_slot) [unnamed_slot] = []
   \<and> checkAvailability utc_engine (Some (serialize [obj_of unnamed_slot]))
        (startDateTime utc_engine (review_form 30)) (endDateTime utc_engine (review_form 30))
        (opt_prop (obj_of unnamed_slot) ''id'') = Inr False
   \<and> handleSubmit utc_engine monday ''u1'' Colleague (obj_of unnamed_slot) (review_form 30)
        (Some (serialize [obj_of unnamed_slot]))
       = (Rejected OverlapError, Some (serialize [obj_of unnamed_slot]))"
  by code_simp

subsection \<open>Opening a slot over existing records\<close>

text \<open>
  C2. When the owner opens a new slot (no existing appointment, so no record is
  excluded) and the range overlaps a stored record of any type, the storage is left as
  it is and nothing is saved; a submission that has all its fields and does not start in
  the past is rejected with the overlap error.
\<close>

theorem owner_overlap_rejected:
  assumes "getAppointments other st = map obj_of apts"
    and "nullish ex"
    and "\<exists>a\<in>set apts. overlaps (startDateTime other f) (endDateTime other f)
                          (apt_start a) (apt_end a)"
  shows "snd (handleSubmit other now uuid Owner ex f st) = st
    \<and> fst (handleSubmit other now uuid Owner ex f st) \<noteq> Saved
    \<and> (form_date f \<noteq> [] \<and> form_time f \<noteq> [] \<and> form_title f \<noteq> [] \<and> form_name f \<noteq> []
        \<and> \<not> num_lt (getTime (startDateTime other f)) (getTime now)
        \<longrightarrow> handleSubmit other now uuid Owner ex f st = (Rejected OverlapError, st))"
  using assms(2,3) by (simp add: handleSubmit_obj_of [OF assms(1)])

theorem owner_overlap_rejected_witness:
  "getAppointments utc_engine example_store = map obj_of [open_slot, later_meeting]
   \<and> nullish JUndefined
   \<and> overlaps (startDateTime utc_engine (review_form 30)) (endDateTime utc_engine (review_form 30))
        (apt_start open_slot) (apt_end open_slot)
   \<and> handleSubmit utc_engine monday ''u1'' Owner JUndefined (review_form 30) example_store
       = (Rejected OverlapError, example_store)"
proof -
  have n: "nullish JUndefined" by (simp add: nullish_def)
  have o: "overlaps (startDateTime utc_engine (review_form 30))
        (endDateTime utc_engine (review_form 30)) (apt_start open_slot) (apt_end open_slot)"
    by (simp add: review_form_times open_slot_def overlaps_def num_gt_def)
  then have ex: "\<exists>a\<in>set [open_slot, later_meeting].
      overlaps (startDateTime utc_engine (review_form 30))
        (endDateTime utc_engine (review_form 30)) (apt_start a) (apt_end a)"
    by simp
  have now: "\<not> num_lt (getTime (startDateTime utc_engine (review_form 30))) (getTime monday)"
    by (simp add: review_form_times monday_def)
  from owner_overlap_rejected [OF example_store_loads n ex, of monday "''u1''"] now
  have "handleSubmit utc_engine monday ''u1'' Owner JUndefined (review_form 30) example_store
       = (Rejected OverlapError, example_store)"
    by (simp add: review_form_fields)
  then show ?thesis using example_store_loads n o by simp
qed

subsection \<open>A booking takes the place of the slot\<close>

lemma distinct_map_nth_eq:
  assumes "distinct (map g xs)" "i < length xs" "x \<in> set xs" "g (xs ! i) = g x"
  shows "xs ! i = x"
proof -
  from assms(3) obtain j where j: "j < length xs" "xs ! j = x"
    by (auto simp: in_set_conv_nth)
  have "map g xs ! i = map g xs ! j" using assms(2,4) j by simp
  moreover have "i < length (map g xs)" "j < length (map g xs)" using assms(2) j(1) by simp_all
  ultimately have "i = j" using assms(1) nth_eq_iff_index_eq by blast
  then show ?thesis using j by simp
qed

lemma filter_update_single:
  assumes "i < length xs" "P y" "\<And>j. j < length xs \<Longrightarrow> j \<noteq> i \<Longrightarrow> \<not> P (xs ! j)"
  shows "filter P (xs[i := y]) = [y]"
  using assms
proof (induction xs arbitrary: i)
  case Nil
  then show ?case by simp
next
  case (Cons x xs)
  show ?case
  proof (cases i)
    case 0
    have "\<not> P z" if "z \<in> set xs" for z
    proof -
      from that obtain j where "j < length xs" "xs ! j = z" by (auto simp: in_set_conv_nth)
      then show ?thesis using Cons.prems(3) [of "Suc j"] 0 by auto
    qed
    then have "filter P xs = []" by (simp add: filter_empty_conv)
    then show ?thesis using 0 Cons.prems(2) by simp
  next
    case (Suc k)
    have x: "\<not> P x" using Cons.prems(3) [of 0] Suc by simp
    have "filter P (xs[k := y]) = [y]"
    proof (rule Cons.IH)
      show "k < length xs" using Cons.prems(1) Suc by simp
      show "P y" by (rule Cons.prems(2))
      show "\<not> P (xs ! j)" if "j < length xs" "j \<noteq> k" for j
        using Cons.prems(3) [of "Suc j"] that Suc by simp
    qed
    then show ?thesis using Suc x by simp
  qed
qed

lemma set_update_others:
  "x \<in> set xs \<Longrightarrow> x \<noteq> xs ! i \<Longrightarrow> x \<in> set (xs[i := y])"
  by (metis in_set_conv_nth length_list_update nth_list_update_neq)

text \<open>
  What holds of the handler whenever the form is on the start of the slot. In a store
  with distinct ids that holds an availability \<open>A\<close>, alone at its origin cell, a
  colleague's booking of \<open>A\<close> (the duration is any that passes the checks) is written in
  place of \<open>A\<close>: the number of stored appointments is unchanged, \<open>A\<close> is gone, every other
  record stays, and exactly one record is at the origin cell and exactly one has \<open>A\<close>'s
  id: the new meeting.
\<close>

theorem colleague_booking_replaces_slot:
  assumes "getAppointments other st = map obj_of apts"
    and "distinct (map apt_id apts)"
    and "A \<in> set apts" and "apt_type A = Availability"
    and "\<forall>a\<in>set apts. apt_start a = apt_start A \<longrightarrow> a = A"
    and "startDateTime other f = apt_start A"
    and "fst (handleSubmit other now uuid Colleague (obj_of A) f st) = Saved"
  shows "\<exists>apts'.
      snd (handleSubmit other now uuid Colleague (obj_of A) f st)
        = Some (serialize (map obj_of apts'))
      \<and> length apts' = length apts
      \<and> A \<notin> set apts'
      \<and> (\<forall>a\<in>set apts. a \<noteq> A \<longrightarrow> a \<in> set apts')
      \<and> filter (\<lambda>a. apt_start a = apt_start A) apts'
          = [as_appointment (apt_id A) Meeting (apt_start A) (endDateTime other f) f]
      \<and> filter (\<lambda>a. apt_id a = apt_id A) apts'
          = [as_appointment (apt_id A) Meeting (apt_start A) (endDateTime other f) f]"
proof -
  define m where "m = as_appointment (apt_id A) Meeting (apt_start A) (endDateTime other f) f"
  define i where "i = findIndex (\<lambda>b. apt_id b = apt_id m) apts"
  have m: "apt_id m = apt_id A" "apt_start m = apt_start A" "apt_type m = Meeting"
    by (simp_all add: m_def as_appointment_def)
  have new: "new_appointment other uuid Colleague (obj_of A) f = obj_of m"
    by (simp add: new_appointment_existing assms(6) m_def)
  have "\<not> (\<forall>x\<in>set apts. apt_id x \<noteq> apt_id m)" using assms(3) m by auto
  then have "\<not> i < 0" using findIndex_neg_iff [of "\<lambda>b. apt_id b = apt_id m" apts]
    by (simp add: i_def)
  then have i0: "0 \<le> i" by simp
  from findIndex_first [OF i0 [unfolded i_def], folded i_def]
  have i: "nat i < length apts" "apt_id (apts ! nat i) = apt_id m" by simp_all
  have at: "apts ! nat i = A"
    using distinct_map_nth_eq [OF assms(2) i(1) assms(3)] i(2) m by simp
  have d: "distinct apts" using assms(2) by (rule distinct_map [THEN iffD1, THEN conjunct1])
  have others: "apts ! j \<noteq> A" if "j < length apts" "j \<noteq> nat i" for j
    using that d i(1) at by (auto simp: nth_eq_iff_index_eq)
  have save: "saveAppointment other st (obj_of m)
      = (Some (serialize (map obj_of (apts[nat i := m]))), map obj_of (apts[nat i := m]))"
    using saveAppointment_obj_of [OF assms(1), of m] i0 by (simp add: i_def)
  have st: "snd (handleSubmit other now uuid Colleague (obj_of A) f st)
      = Some (serialize (map obj_of (apts[nat i := m])))"
    using handleSubmit_Saved [OF assms(7)] by (simp add: new save)
  have neq: "m \<noteq> A" using m(3) assms(4) by auto
  have gone: "A \<notin> set (apts[nat i := m])"
  proof
    assume "A \<in> set (apts[nat i := m])"
    then obtain j where j: "j < length apts" "(apts[nat i := m]) ! j = A"
      by (auto simp: in_set_conv_nth)
    show False
    proof (cases "j = nat i")
      case True
      then show False using j i(1) neq by simp
    next
      case False
      then show False using j others [of j] by simp
    qed
  qed
  have kept: "\<forall>a\<in>set apts. a \<noteq> A \<longrightarrow> a \<in> set (apts[nat i := m])"
    using set_update_others at by metis
  have cell: "filter (\<lambda>a. apt_start a = apt_start A) (apts[nat i := m]) = [m]"
  proof (rule filter_update_single [OF i(1)])
    show "apt_start m = apt_start A" by (rule m(2))
    show "apt_start (apts ! j) \<noteq> apt_start A" if "j < length apts" "j \<noteq> nat i" for j
      using assms(5) others [OF that] that(1) by auto
  qed
  have ident: "filter (\<lambda>a. apt_id a = apt_id A) (apts[nat i := m]) = [m]"
  proof (rule filter_update_single [OF i(1)])
    show "apt_id m = apt_id A" by (rule m(1))
    show "apt_id (apts ! j) \<noteq> apt_id A" if "j < length apts" "j \<noteq> nat i" for j
    proof
      assume "apt_id (apts ! j) = apt_id A"
      then have "apts ! j = A"
        using distinct_map_nth_eq [OF assms(2) that(1) assms(3)] by simp
      then show False using others [OF that] by simp
    qed
  qed
  show ?thesis
    using st gone kept cell ident
    by (intro exI [of _ "apts[nat i := m]"]) (simp add: m_def)
qed

theorem colleague_booking_replaces_slot_witness:
  "getAppointments utc_engine example_store = map obj_of [open_slot, later_meeting]
   \<and> distinct (map apt_id [open_slot, later_meeting])
   \<and> apt_type open_slot = Availability
   \<and> startDateTime utc_engine (review_form 30) = apt_start open_slot
   \<and> fst (handleSubmit utc_engine monday ''u1'' Colleague (obj_of open_slot) (review_form 30)
            example_store) = Saved
   \<and> (\<exists>apts'.
        snd (handleSubmit utc_engine monday ''u1'' Colleague (obj_of open_slot) (review_form 30)
               example_store) = Some (serialize (map obj_of apts'))
        \<and> length apts' = 2
        \<and> open_slot \<notin> set apts'
        \<and> later_meeting \<in> set apts'
        \<and> filter (\<lambda>a. apt_start a = Date 1717495200000) apts'
            = [as_appointment ''a1'' Meeting (Date 1717495200000) (Date 1717497000000)
                 (review_form 30)])"
proof -
  have d: "distinct (map apt_id [open_slot, later_meeting])"
    by (simp add: open_slot_def later_meeting_def)
  have m: "open_slot \<in> set [open_slot, later_meeting]" by simp
  have t: "apt_type open_slot = Availability" by (simp add: open_slot_def)
  have alone: "\<forall>a\<in>set [open_slot, later_meeting].
      apt_start a = apt_start open_slot \<longrightarrow> a = open_slot"
    by (simp add: open_slot_def later_meeting_def)
  have s: "startDateTime utc_engine (review_form 30) = apt_start open_slot"
    by (simp add: review_form_times open_slot_def)
  have saved: "fst (handleSubmit utc_engine monday ''u1'' Colleague (obj_of open_slot)
      (review_form 30) example_store) = Saved"
    by code_simp
  have ne: "later_meeting \<noteq> open_slot" by (simp add: open_slot_def later_meeting_def)
  from colleague_booking_replaces_slot [OF example_store_loads d m t alone s saved]
  obtain apts' where
    "snd (handleSubmit utc_engine monday ''u1'' Colleague (obj_of open_slot) (review_form 30)
           example_store) = Some (serialize (map obj_of apts'))"
    "length apts' = length [open_slot, later_meeting]"
    "open_slot \<notin> set apts'"
    "\<forall>a\<in>set [open_slot, later_meeting]. a \<noteq> open_slot \<longrightarrow> a \<in> set apts'"
    "filter (\<lambda>a. apt_start a = apt_start open_slot) apts'
       = [as_appointment (apt_id open_slot) Meeting (apt_start open_slot)
            (endDateTime utc_engine (review_form 30)) (review_form 30)]"
    by blast
  then have "\<exists>apts'.
        snd (handleSubmit utc_engine monday ''u1'' Colleague (obj_of open_slot) (review_form 30)
               example_store) = Some (serialize (map obj_of apts'))
        \<and> length apts' = 2
        \<and> open_slot \<notin> set apts'
        \<and> later_meeting \<in> set apts'
        \<and> filter (\<lambda>a. apt_start a = Date 1717495200000) apts'
            = [as_appointment ''a1'' Meeting (Date 1717495200000) (Date 1717497000000)
                 (review_form 30)]"
    using ne by (intro exI [of _ apts']) (simp add: review_form_times open_slot_def)
  then show ?thesis using example_store_loads d t s saved by simp
qed

subsection \<open>The date of the form\<close>

text \<open>
  C3. The claim fails on the code where the browser is east of UTC. The form of the
  modal takes its date from \<^verbatim>\<open>toISOString\<close>, which is the UTC date of the local midnight:
  the day before. Two hours east of UTC, the colleague's booking of the slot of Tuesday
  10:00 is saved, under the slot's id, on Monday 10:00 (08:00 UTC of 3 June): the slot
  is gone, and no record is at its origin cell (08:00 UTC of 4 June).
\<close>

theorem booking_east_of_utc_lands_a_day_early:
  "toISOString 1717452000000 = ''2024-06-03T22:00:00.000Z''
   \<and> toISOString 1717488000000 = ''2024-06-04T08:00:00.000Z''
   \<and> booking_form east_day ''10:00'' east_slot ''Code review'' ''Kim'' = Some east_form
   \<and> startDateTime (zone_engine 120) east_form = Date 1717401600000
   \<and> toISOString 1717401600000 = ''2024-06-03T08:00:00.000Z''
   \<and> handleSubmit (zone_engine 120) sunday ''u1'' Colleague (obj_of east_slot) east_form
         (Some (serialize [obj_of east_slot]))
       = (Saved, Some (serialize [obj_of (as_appointment ''a1'' Meeting
            (Date 1717401600000) (Date 1717403400000) east_form)]))
   \<and> filter (\<lambda>a. apt_start a = apt_start east_slot)
         [as_appointment ''a1'' Meeting (Date 1717401600000) (Date 1717403400000) east_form]
       = []"
  by code_simp

text \<open>West of UTC the date of the form is the local one, and the form is on the slot.\<close>

lemma booking_west_of_utc_is_on_the_slot:
  "toISOString 1717477200000 = ''2024-06-04T05:00:00.000Z''
   \<and> map_option (startDateTime (zone_engine (- 300)))
         (booking_form west_day ''10:00'' west_slot ''Code review'' ''Kim'')
       = Some (apt_start west_slot)"
  by code_simp

subsection \<open>The type an edit writes\<close>

text \<open>
  C4. The claim fails on the code: whoever submits the form on an existing
  appointment, the type written is \<^verbatim>\<open>meeting\<close>. The owner's edit of the open slot, which
  passes every check, puts a meeting in its place.
\<close>

theorem owner_edit_saves_a_meeting:
  "new_type Owner (obj_of A) = ''meeting''
   \<and> handleSubmit utc_engine monday ''u1'' Owner (obj_of open_slot) owner_edit_form example_store
     = (Saved, Some (serialize (map obj_of
          [as_appointment ''a1'' Meeting (Date 1717495200000) (Date 1717497000000)
             owner_edit_form,
           later_meeting])))"
proof -
  have "handleSubmit utc_engine monday ''u1'' Owner (obj_of open_slot) owner_edit_form example_store
     = (Saved, Some (serialize (map obj_of
          [as_appointment ''a1'' Meeting (Date 1717495200000) (Date 1717497000000)
             owner_edit_form,
           later_meeting])))"
    by code_simp
  then show ?thesis by (simp add: new_type_existing)
qed

subsection \<open>The range of the appointment built\<close>

text \<open>
  C7, as amended. The handler builds the end as the start plus the duration. For a
  duration above zero the end, when it is a valid date, is after the start; for a
  duration of zero or less it is not. No check looks at the range: the handler ends in
  one of its three errors or saves, and on an empty store a submission with all its
  fields that does not start in the past is saved whatever the duration.
\<close>

theorem end_after_start_iff_positive_duration:
  "(0 < form_duration f \<and> endDateTime other f \<noteq> Invalid_Date
      \<longrightarrow> num_lt (getTime (startDateTime other f)) (getTime (endDateTime other f)))
   \<and> (form_duration f \<le> 0
      \<longrightarrow> \<not> num_lt (getTime (startDateTime other f)) (getTime (endDateTime other f)))
   \<and> fst (handleSubmit other now uuid r ex f st)
        \<in> {Saved, Rejected AllFieldsRequired, Rejected PastSlot, Rejected OverlapError}
   \<and> (form_date f \<noteq> [] \<and> form_time f \<noteq> [] \<and> form_title f \<noteq> [] \<and> form_name f \<noteq> []
        \<and> \<not> num_lt (getTime (startDateTime other f)) (getTime now)
        \<and> getAppointments other st = []
      \<longrightarrow> fst (handleSubmit other now uuid r ex f st) = Saved)"
proof -
  have pos: "num_lt (getTime (startDateTime other f)) (getTime (endDateTime other f))"
    if "0 < form_duration f" "endDateTime other f \<noteq> Invalid_Date"
    using that by (cases "startDateTime other f")
      (auto simp: endDateTime_def TimeClip_def split: if_splits)
  have neg: "\<not> num_lt (getTime (startDateTime other f)) (getTime (endDateTime other f))"
    if "form_duration f \<le> 0"
    using that by (cases "startDateTime other f")
      (auto simp: endDateTime_def TimeClip_def split: if_splits)
  obtain b where b: "checkAvailability other st (startDateTime other f) (endDateTime other f)
      (opt_prop ex ''id'') = Inr b"
    using checkAvailability_total by blast
  have out: "fst (handleSubmit other now uuid r ex f st)
        \<in> {Saved, Rejected AllFieldsRequired, Rejected PastSlot, Rejected OverlapError}"
    by (simp add: handleSubmit_def b)
  have empty: "fst (handleSubmit other now uuid r ex f st) = Saved"
    if "form_date f \<noteq> []" "form_time f \<noteq> []" "form_title f \<noteq> []" "form_name f \<noteq> []"
      "\<not> num_lt (getTime (startDateTime other f)) (getTime now)"
      "getAppointments other st = []"
    using that handleSubmit_obj_of [of other st "[]" now uuid r ex f] by simp
  show ?thesis using pos neg out empty by blast
qed

theorem end_after_start_iff_positive_duration_witness:
  "0 < form_duration (review_form 30)
   \<and> endDateTime utc_engine (review_form 30) \<noteq> Invalid_Date
   \<and> num_lt (getTime (startDateTime utc_engine (review_form 30)))
        (getTime (endDateTime utc_engine (review_form 30)))
   \<and> form_duration (review_form (- 30)) \<le> 0
   \<and> \<not> num_lt (getTime (startDateTime utc_engine (review_form (- 30))))
          (getTime (endDateTime utc_engine (review_form (- 30))))
   \<and> getAppointments utc_engine None = []
   \<and> fst (handleSubmit utc_engine monday ''u1'' Owner JUndefined (review_form (- 30)) None) = Saved"
proof -
  have p: "0 < form_duration (review_form 30)"
    "endDateTime utc_engine (review_form 30) \<noteq> Invalid_Date"
    by (simp_all add: review_form_fields review_form_times)
  have n: "form_duration (review_form (- 30)) \<le> 0" by (simp add: review_form_fields)
  have e: "getAppointments utc_engine None = []" by (simp add: getAppointments_def)
  have now: "\<not> num_lt (getTime (startDateTime utc_engine (review_form (- 30)))) (getTime monday)"
    by (simp add: review_form_times monday_def)
  from end_after_start_iff_positive_duration
    [of "review_form 30" utc_engine monday "''u1''" Owner JUndefined None] p
  have a: "num_lt (getTime (startDateTime utc_engine (review_form 30)))
        (getTime (endDateTime utc_engine (review_form 30)))"
    by blast
  from end_after_start_iff_positive_duration
    [of "review_form (- 30)" utc_engine monday "''u1''" Owner JUndefined None] n e now
    review_form_fields(1-4) [of "- 30"]
  have b: "\<not> num_lt (getTime (startDateTime utc_engine (review_form (- 30))))
          (getTime (endDateTime utc_engine (review_form (- 30))))"
    "fst (handleSubmit utc_engine monday ''u1'' Owner JUndefined (review_form (- 30)) None) = Saved"
    by blast+
  show ?thesis using p n e a b by blast
qed

text \<open>
  Against C7 as stated: the owner's form with a duration of minus thirty minutes (the
  modal takes the duration of an assistant suggestion as it comes) is saved, with an end
  half an hour before the start.
\<close>

theorem negative_duration_is_saved:
  "handleSubmit utc_engine monday ''u1'' Owner JUndefined (review_form (- 30)) None
     = (Saved, Some (serialize [obj_of (as_appointment ''u1'' Availability
          (Date 1717495200000) (Date 1717493400000) (review_form (- 30)))]))
   \<and> num_lt (getTime (Date 1717493400000)) (getTime (Date 1717495200000))"
  by code_simp

end
